theory Spec2Isabelle
  imports Main
begin

section \<open>Values of the handler\<close>

text \<open>
  Everything \<^verbatim>\<open>rp_handler.py\<close> handles is a decoded JSON value: the event, the
  validated payload, the workflow graph, the bodies the engine answers. A Python dict keeps
  its insertion order and the handler depends on it (the first node, the first output), so
  an object is an association list; a well-formed one has distinct keys and a lookup takes
  the first binding. A string is a list of code points below 256. A Python float is kept as
  the two things the handler can observe of it: whether it is non-zero, and its printed form.
\<close>

datatype json =
    JNull
  | JBool bool
  | JInt int
  | JFloat bool string
  | JStr string
  | JList "json list"
  | JObj "(string \<times> json) list"

text \<open>
  The exceptions that can reach the handler's \<^verbatim>\<open>except Exception\<close>: the ones the
  interpreter raises on a value of the wrong shape, the one the handler raises itself, and
  whatever a call to the outside (validator, HTTP session, file system, base64 codec) raises,
  which carries its own message. The texts of the interpreter's messages are CPython 3.10's;
  later versions word some of them differently.
\<close>

datatype exn =
    KeyError json
  | TypeError string
  | AttributeError string
  | IndexError string
  | RuntimeError string
  | External string

subsection \<open>Python's \<^verbatim>\<open>str\<close> and \<^verbatim>\<open>repr\<close>\<close>

definition digit_char :: "nat \<Rightarrow> char" where
  "digit_char d = char_of (of_char (CHR ''0'') + d)"

fun dec_nat :: "nat \<Rightarrow> string" where
  "dec_nat n = (if n < 10 then [digit_char n] else dec_nat (n div 10) @ [digit_char (n mod 10)])"

declare dec_nat.simps [simp del]

definition dec_int :: "int \<Rightarrow> string" where
  "dec_int i = (if i < 0 then CHR ''-'' # dec_nat (nat (- i)) else dec_nat (nat i))"

definition hex_char :: "nat \<Rightarrow> char" where
  "hex_char d = (if d < 10 then digit_char d else char_of (of_char (CHR ''a'') + (d - 10)))"

definition squote :: char where
  "squote = CHR 0x27"

definition dquote :: char where
  "dquote = CHR 0x22"

definition backslash :: char where
  "backslash = CHR 0x5C"

definition printable :: "char \<Rightarrow> bool" where
  "printable c = (let n = (of_char c :: nat) in
     (32 \<le> n \<and> n \<le> 126) \<or> (161 \<le> n \<and> n \<noteq> 173))"

definition repr_char :: "char \<Rightarrow> char \<Rightarrow> string" where
  "repr_char q c =
     (if c = backslash then [backslash, backslash]
      else if c = q then [backslash, q]
      else if c = CHR 0x0A then [backslash, CHR ''n'']
      else if c = CHR 0x0D then [backslash, CHR ''r'']
      else if c = CHR 0x09 then [backslash, CHR ''t'']
      else if printable c then [c]
      else (let n = (of_char c :: nat) in
              [backslash, CHR ''x'', hex_char (n div 16), hex_char (n mod 16)]))"

definition repr_str :: "string \<Rightarrow> string" where
  "repr_str s =
     (let q = (if squote \<in> set s \<and> dquote \<notin> set s then dquote else squote)
      in q # concat (map (repr_char q) s) @ [q])"

fun join_with :: "string \<Rightarrow> string list \<Rightarrow> string" where
  "join_with sep [] = []"
| "join_with sep [x] = x"
| "join_with sep (x # y # ys) = x @ sep @ join_with sep (y # ys)"

fun py_repr :: "json \<Rightarrow> string" where
  "py_repr JNull = ''None''"
| "py_repr (JBool b) = (if b then ''True'' else ''False'')"
| "py_repr (JInt i) = dec_int i"
| "py_repr (JFloat nz txt) = txt"
| "py_repr (JStr s) = repr_str s"
| "py_repr (JList xs) = ''['' @ join_with '', '' (map py_repr xs) @ '']''"
| "py_repr (JObj kvs) =
     ''{'' @ join_with '', '' (map (\<lambda>kv. repr_str (fst kv) @ '': '' @ py_repr (snd kv)) kvs) @ ''}''"

fun py_str :: "json \<Rightarrow> string" where
  "py_str (JStr s) = s"
| "py_str v = py_repr v"

fun type_name :: "json \<Rightarrow> string" where
  "type_name JNull = ''NoneType''"
| "type_name (JBool b) = ''bool''"
| "type_name (JInt i) = ''int''"
| "type_name (JFloat nz txt) = ''float''"
| "type_name (JStr s) = ''str''"
| "type_name (JList xs) = ''list''"
| "type_name (JObj kvs) = ''dict''"

text \<open>\<^verbatim>\<open>str(e)\<close>: the message, and for a \<^verbatim>\<open>KeyError\<close> the repr of the key.\<close>

fun str_exn :: "exn \<Rightarrow> string" where
  "str_exn (KeyError k) = py_repr k"
| "str_exn (TypeError m) = m"
| "str_exn (AttributeError m) = m"
| "str_exn (IndexError m) = m"
| "str_exn (RuntimeError m) = m"
| "str_exn (External m) = m"

subsection \<open>The operations Python applies to a value\<close>

text \<open>Truth value of a decoded JSON value (\<^verbatim>\<open>not x\<close>, \<^verbatim>\<open>if x\<close>).\<close>

fun py_truthy :: "json \<Rightarrow> bool" where
  "py_truthy JNull = False"
| "py_truthy (JBool b) = b"
| "py_truthy (JInt i) = (i \<noteq> 0)"
| "py_truthy (JFloat nz txt) = nz"
| "py_truthy (JStr s) = (s \<noteq> [])"
| "py_truthy (JList xs) = (xs \<noteq> [])"
| "py_truthy (JObj kvs) = (kvs \<noteq> [])"

text \<open>\<^verbatim>\<open>len(x)\<close>.\<close>

fun py_len :: "json \<Rightarrow> exn + nat" where
  "py_len (JStr s) = Inr (length s)"
| "py_len (JList xs) = Inr (length xs)"
| "py_len (JObj kvs) = Inr (length kvs)"
| "py_len v = Inl (TypeError (''object of type '' @ repr_str (type_name v) @ '' has no len()''))"

text \<open>\<^verbatim>\<open>s.startswith(p)\<close> and the substring test behind \<^verbatim>\<open>p in s\<close> on strings.\<close>

fun startswith :: "string \<Rightarrow> string \<Rightarrow> bool" where
  "startswith s [] = True"
| "startswith [] (p # ps) = False"
| "startswith (c # cs) (p # ps) = (c = p \<and> startswith cs ps)"

fun has_substring :: "string \<Rightarrow> string \<Rightarrow> bool" where
  "has_substring [] p = (p = [])"
| "has_substring (c # cs) p = (startswith (c # cs) p \<or> has_substring cs p)"

text \<open>\<^verbatim>\<open>key in x\<close> for a string \<^verbatim>\<open>key\<close>: a key of a dict, an element of a list, a
  substring of a string; any other value is not iterable.\<close>

fun py_contains :: "string \<Rightarrow> json \<Rightarrow> exn + bool" where
  "py_contains key (JObj kvs) = Inr (key \<in> fst ` set kvs)"
| "py_contains key (JList xs) = Inr (JStr key \<in> set xs)"
| "py_contains key (JStr s) = Inr (has_substring s key)"
| "py_contains key v =
     Inl (TypeError (''argument of type '' @ repr_str (type_name v) @ '' is not iterable''))"

text \<open>Indexing a sequence of length \<open>n\<close> with an integer: negative indices count from the end.\<close>

definition seq_index :: "nat \<Rightarrow> int \<Rightarrow> nat option" where
  "seq_index n i =
     (let j = (if i < 0 then int n + i else i)
      in if 0 \<le> j \<and> j < int n then Some (nat j) else None)"

fun as_index :: "json \<Rightarrow> int option" where
  "as_index (JInt i) = Some i"
| "as_index (JBool b) = Some (if b then 1 else 0)"
| "as_index v = None"

text \<open>\<^verbatim>\<open>x[key]\<close>. The keys of a decoded JSON object are strings, so a hashable key of
  another type is never found in it.\<close>

fun py_getitem :: "json \<Rightarrow> json \<Rightarrow> exn + json" where
  "py_getitem (JObj kvs) (JStr k) =
     (case map_of kvs k of None \<Rightarrow> Inl (KeyError (JStr k)) | Some v \<Rightarrow> Inr v)"
| "py_getitem (JObj kvs) (JList ks) = Inl (TypeError (''unhashable type: '' @ repr_str ''list''))"
| "py_getitem (JObj kvs) (JObj ks) = Inl (TypeError (''unhashable type: '' @ repr_str ''dict''))"
| "py_getitem (JObj kvs) key = Inl (KeyError key)"
| "py_getitem (JList xs) key =
     (case as_index key of
        None \<Rightarrow> Inl (TypeError (''list indices must be integers or slices, not '' @ type_name key))
      | Some i \<Rightarrow>
          (case seq_index (length xs) i of
             None \<Rightarrow> Inl (IndexError ''list index out of range'')
           | Some j \<Rightarrow> Inr (xs ! j)))"
| "py_getitem (JStr s) key =
     (case as_index key of
        None \<Rightarrow> Inl (TypeError ''string indices must be integers'')
      | Some i \<Rightarrow>
          (case seq_index (length s) i of
             None \<Rightarrow> Inl (IndexError ''string index out of range'')
           | Some j \<Rightarrow> Inr (JStr [s ! j])))"
| "py_getitem v key =
     Inl (TypeError (repr_str (type_name v) @ '' object is not subscriptable''))"

text \<open>\<^verbatim>\<open>x.get(key, default)\<close>, \<^verbatim>\<open>x.items()\<close>, \<^verbatim>\<open>x.lower()\<close>: methods of one type only.\<close>

definition no_attribute :: "json \<Rightarrow> string \<Rightarrow> exn" where
  "no_attribute v name =
     AttributeError (repr_str (type_name v) @ '' object has no attribute '' @ repr_str name)"

fun py_get :: "json \<Rightarrow> string \<Rightarrow> json \<Rightarrow> exn + json" where
  "py_get (JObj kvs) k d = Inr (case map_of kvs k of None \<Rightarrow> d | Some v \<Rightarrow> v)"
| "py_get v k d = Inl (no_attribute v ''get'')"

fun py_items :: "json \<Rightarrow> exn + (string \<times> json) list" where
  "py_items (JObj kvs) = Inr kvs"
| "py_items v = Inl (no_attribute v ''items'')"

definition lower_char :: "char \<Rightarrow> char" where
  "lower_char c = (let n = (of_char c :: nat) in
     if (65 \<le> n \<and> n \<le> 90) \<or> (192 \<le> n \<and> n \<le> 222 \<and> n \<noteq> 215) then char_of (n + 32) else c)"

fun py_lower :: "json \<Rightarrow> exn + string" where
  "py_lower (JStr s) = Inr (map lower_char s)"
| "py_lower v = Inl (no_attribute v ''lower'')"

text \<open>\<^verbatim>\<open>d[key] = value\<close> on a dict: an existing key keeps its place, a new one goes last.\<close>

fun dict_set :: "(string \<times> json) list \<Rightarrow> string \<Rightarrow> json \<Rightarrow> (string \<times> json) list" where
  "dict_set [] k v = [(k, v)]"
| "dict_set ((k', v') # kvs) k v =
     (if k' = k then (k, v) # kvs else (k', v') # dict_set kvs k v)"

text \<open>\<^verbatim>\<open>x[key] = value\<close> for a string \<^verbatim>\<open>key\<close>.\<close>

fun py_setitem :: "json \<Rightarrow> string \<Rightarrow> json \<Rightarrow> exn + json" where
  "py_setitem (JObj kvs) k v = Inr (JObj (dict_set kvs k v))"
| "py_setitem (JList xs) k v =
     Inl (TypeError ''list indices must be integers or slices, not str'')"
| "py_setitem x k v =
     Inl (TypeError (repr_str (type_name x) @ '' object does not support item assignment''))"

section \<open>The world outside the handler\<close>

text \<open>
  What the handler does to the outside is recorded, in order, as a trace of events: the
  HTTP requests of the session, the pauses of \<^verbatim>\<open>time.sleep\<close>, the calls to the file
  system. A pause is recorded in milliseconds (\<^verbatim>\<open>time.sleep(0.2)\<close> is 200).
\<close>

datatype event =
    HttpPost string json
  | HttpGet string
  | Sleep nat
  | MakeDirs string
  | OpenWrite string
  | WriteFile string string
  | ReadFile string

type_synonym trace = "event list"

text \<open>The answer of the engine: \<^verbatim>\<open>status_code\<close>, and what \<^verbatim>\<open>.json()\<close> gives, which
  raises when the body is not JSON.\<close>

record response =
  status_code :: int
  json_body :: "exn + json"

text \<open>
  How the outside answers is a parameter of the model. The validator is the hosting
  framework's \<^verbatim>\<open>validate\<close> applied to \<^verbatim>\<open>INPUT_SCHEMA\<close>, neither of which is in
  \<^verbatim>\<open>rp_handler.py\<close>. The session answers a POST by its URL and payload, and the \<open>k\<close>-th
  GET of an invocation by its URL and \<open>k\<close> (its retries of 502/503/504 happen inside the
  session and are not seen by the handler). The file system and the base64 codec answer each
  call, or raise.
\<close>

record env =
  env_validate :: "json \<Rightarrow> exn + json"
  env_post :: "string \<Rightarrow> json \<Rightarrow> exn + response"
  env_get :: "string \<Rightarrow> nat \<Rightarrow> exn + response"
  env_makedirs :: "string \<Rightarrow> exn option"
  env_open_write :: "string \<Rightarrow> exn option"
  env_write :: "string \<Rightarrow> string \<Rightarrow> exn option"
  env_read :: "string \<Rightarrow> exn + string"
  env_b64decode :: "string \<Rightarrow> exn + string"
  env_b64encode :: "string \<Rightarrow> string"

subsection \<open>Control flow of a \<^verbatim>\<open>try\<close> block\<close>

text \<open>
  A piece of the handler's \<^verbatim>\<open>try\<close> block either goes on with a value, leaves the handler
  through a \<^verbatim>\<open>return\<close>, raises, or is still in the polling loop when the fuel given to
  the model runs out. It extends the trace as it goes.
\<close>

datatype 'a flow = Next 'a | Return json | Raise exn | Running

type_synonym 'a prog = "trace \<Rightarrow> 'a flow \<times> trace"

definition next_with :: "'a \<Rightarrow> 'a prog" where
  "next_with x tr = (Next x, tr)"

definition return_with :: "json \<Rightarrow> 'a prog" where
  "return_with v tr = (Return v, tr)"

definition raise :: "exn \<Rightarrow> 'a prog" where
  "raise e tr = (Raise e, tr)"

definition emit :: "event \<Rightarrow> unit prog" where
  "emit ev tr = (Next (), tr @ [ev])"

definition lift :: "exn + 'a \<Rightarrow> 'a prog" where
  "lift r tr = (case r of Inl e \<Rightarrow> (Raise e, tr) | Inr x \<Rightarrow> (Next x, tr))"

definition check :: "exn option \<Rightarrow> unit prog" where
  "check r tr = (case r of Some e \<Rightarrow> (Raise e, tr) | None \<Rightarrow> (Next (), tr))"

definition and_then :: "'a prog \<Rightarrow> ('a \<Rightarrow> 'b prog) \<Rightarrow> 'b prog" where
  "and_then m f tr =
     (case m tr of
        (Next x, tr') \<Rightarrow> f x tr'
      | (Return v, tr') \<Rightarrow> (Return v, tr')
      | (Raise e, tr') \<Rightarrow> (Raise e, tr')
      | (Running, tr') \<Rightarrow> (Running, tr'))"

section \<open>The functions of \<^verbatim>\<open>rp_handler.py\<close>\<close>

definition BASE_URI :: string where
  "BASE_URI = ''http://127.0.0.1:3000''"

definition VOLUME_MOUNT_PATH :: string where
  "VOLUME_MOUNT_PATH = ''/runpod-volume''"

text \<open>\<^verbatim>\<open>send_get_request\<close>; \<open>k\<close> counts the GET requests the invocation has made before.\<close>

definition send_get_request :: "env \<Rightarrow> string \<Rightarrow> nat \<Rightarrow> response prog" where
  "send_get_request env endpoint k =
     (let url = BASE_URI @ ''/'' @ endpoint
      in and_then (emit (HttpGet url)) (\<lambda>_. lift (env_get env url k)))"

definition send_post_request :: "env \<Rightarrow> string \<Rightarrow> json \<Rightarrow> response prog" where
  "send_post_request env endpoint payload =
     (let url = BASE_URI @ ''/'' @ endpoint
      in and_then (emit (HttpPost url payload)) (\<lambda>_. lift (env_post env url payload)))"

text \<open>\<^verbatim>\<open>get_filenames\<close>: the loop over \<^verbatim>\<open>output.items()\<close>, then the function. The
  result is a Python list, given by its elements.\<close>

fun get_filenames_loop :: "(string \<times> json) list \<Rightarrow> exn + json list" where
  "get_filenames_loop [] = Inr []"
| "get_filenames_loop ((key, val) # rest) =
     (case py_contains ''images'' val of
        Inl e \<Rightarrow> Inl e
      | Inr False \<Rightarrow> get_filenames_loop rest
      | Inr True \<Rightarrow>
          (case py_getitem val (JStr ''images'') of
             Inl e \<Rightarrow> Inl e
           | Inr (JList imgs) \<Rightarrow> Inr imgs
           | Inr other \<Rightarrow> get_filenames_loop rest))"

definition get_filenames :: "json \<Rightarrow> exn + json list" where
  "get_filenames output =
     (case py_items output of Inl e \<Rightarrow> Inl e | Inr items \<Rightarrow> get_filenames_loop items)"

text \<open>\<^verbatim>\<open>save_init_image\<close> with its default file name. The file is opened, and so created or
  emptied, before the base64 text is decoded.\<close>

definition save_init_image :: "env \<Rightarrow> string \<Rightarrow> string prog" where
  "save_init_image env base64_str =
     (let input_dir = VOLUME_MOUNT_PATH @ ''/ComfyUI/input'';
          image_path = input_dir @ ''/'' @ ''init.png''
      in and_then (emit (MakeDirs input_dir)) (\<lambda>_.
         and_then (check (env_makedirs env input_dir)) (\<lambda>_.
         and_then (emit (OpenWrite image_path)) (\<lambda>_.
         and_then (check (env_open_write env image_path)) (\<lambda>_.
         and_then (lift (env_b64decode env base64_str)) (\<lambda>data.
         and_then (emit (WriteFile image_path data)) (\<lambda>_.
         and_then (check (env_write env image_path data)) (\<lambda>_.
         next_with image_path))))))))"

subsection \<open>The handler, piece by piece\<close>

text \<open>Lines 81 to 92: validation, and the workflow that must be there. Gives the payload
  and the workflow.\<close>

definition validated_workflow :: "env \<Rightarrow> json \<Rightarrow> (json \<times> json) prog" where
  "validated_workflow env event =
     and_then (lift (py_getitem event (JStr ''input''))) (\<lambda>input.
     and_then (lift (env_validate env input)) (\<lambda>validated_input.
     and_then (lift (py_contains ''errors'' validated_input)) (\<lambda>has_errors.
     if has_errors then
       and_then (lift (py_getitem validated_input (JStr ''errors''))) (\<lambda>errors.
       return_with (JObj [(''error'', errors)]))
     else
       and_then (lift (py_getitem validated_input (JStr ''validated_input''))) (\<lambda>payload.
       and_then (lift (py_contains ''workflow'' payload)) (\<lambda>has_workflow.
       if \<not> has_workflow then
         return_with (JObj [(''error'', JStr ''Missing workflow in payload'')])
       else
         and_then (lift (py_getitem payload (JStr ''workflow''))) (\<lambda>workflow.
         next_with (payload, workflow)))))))"

text \<open>Line 100, the test on a node, and line 101, the assignment
  \<^verbatim>\<open>node["inputs"]["image"] = image_path\<close>: the dict under \<^verbatim>\<open>inputs\<close> is changed in
  place, so the node holds the changed dict.\<close>

definition is_loadimage :: "json \<Rightarrow> exn + bool" where
  "is_loadimage node =
     (case py_get node ''class_type'' (JStr []) of
        Inl e \<Rightarrow> Inl e
      | Inr class_type \<Rightarrow>
          (case py_lower class_type of
             Inl e \<Rightarrow> Inl e
           | Inr lowered \<Rightarrow> Inr (startswith lowered ''loadimage'')))"

definition set_input_image :: "json \<Rightarrow> string \<Rightarrow> exn + json" where
  "set_input_image node image_path =
     (case py_getitem node (JStr ''inputs'') of
        Inl e \<Rightarrow> Inl e
      | Inr inputs \<Rightarrow>
          (case py_setitem inputs ''image'' (JStr image_path) of
             Inl e \<Rightarrow> Inl e
           | Inr inputs' \<Rightarrow> py_setitem node ''inputs'' inputs'))"

text \<open>Lines 99 to 103: the loop over \<^verbatim>\<open>workflow.items()\<close>, left by \<^verbatim>\<open>break\<close> after the
  first node it patches. Gives the items of the workflow after the loop.\<close>

fun patch_loop :: "string \<Rightarrow> (string \<times> json) list \<Rightarrow> exn + (string \<times> json) list" where
  "patch_loop image_path [] = Inr []"
| "patch_loop image_path ((node_id, node) # rest) =
     (case is_loadimage node of
        Inl e \<Rightarrow> Inl e
      | Inr True \<Rightarrow>
          (case set_input_image node image_path of
             Inl e \<Rightarrow> Inl e
           | Inr node' \<Rightarrow> Inr ((node_id, node') # rest))
      | Inr False \<Rightarrow>
          (case patch_loop image_path rest of
             Inl e \<Rightarrow> Inl e
           | Inr rest' \<Rightarrow> Inr ((node_id, node) # rest')))"

text \<open>Lines 96 to 103: the optional init image. Gives the workflow as it is afterwards.\<close>

definition handle_init_image :: "env \<Rightarrow> json \<Rightarrow> json \<Rightarrow> json prog" where
  "handle_init_image env payload workflow =
     and_then (lift (py_contains ''init_image'' payload)) (\<lambda>has_init_image.
     if \<not> has_init_image then next_with workflow
     else
       and_then (lift (py_getitem payload (JStr ''init_image''))) (\<lambda>init_image.
       case init_image of
         JStr base64_str \<Rightarrow>
           and_then (save_init_image env base64_str) (\<lambda>image_path.
           and_then (lift (py_items workflow)) (\<lambda>items.
           and_then (lift (patch_loop image_path items)) (\<lambda>items'.
           next_with (JObj items'))))
       | _ \<Rightarrow> next_with workflow))"

text \<open>Lines 107 to 117: the submission. Gives the job identifier.\<close>

definition queue_workflow :: "env \<Rightarrow> json \<Rightarrow> json prog" where
  "queue_workflow env workflow =
     and_then (send_post_request env ''prompt'' (JObj [(''prompt'', workflow)])) (\<lambda>queue_response.
     and_then (lift (json_body queue_response)) (\<lambda>resp_json.
     if status_code queue_response \<noteq> 200 then return_with resp_json
     else
       and_then (lift (py_get resp_json ''prompt_id'' JNull)) (\<lambda>prompt_id.
       if \<not> py_truthy prompt_id then
         return_with (JObj [(''error'', JStr ''No prompt_id returned by ComfyUI'')])
       else next_with prompt_id)))"

text \<open>Lines 122 to 127: the polling loop. The condition of line 125 is
  \<^verbatim>\<open>r.status_code == 200 and len(resp_json)\<close>; \<^verbatim>\<open>len\<close> is only called on a 200. The
  loop has no bound in the source; here it makes at most \<open>fuel\<close> requests, and \<open>Running\<close>
  says that it was still going on after them.\<close>

definition history_ready :: "response \<Rightarrow> json \<Rightarrow> exn + bool" where
  "history_ready r resp_json =
     (if status_code r = 200
      then (case py_len resp_json of Inl e \<Rightarrow> Inl e | Inr n \<Rightarrow> Inr (n \<noteq> 0))
      else Inr False)"

definition out_of_fuel :: "'a prog" where
  "out_of_fuel tr = (Running, tr)"

fun poll_history :: "nat \<Rightarrow> env \<Rightarrow> json \<Rightarrow> nat \<Rightarrow> json prog" where
  "poll_history 0 env prompt_id k = out_of_fuel"
| "poll_history (Suc fuel) env prompt_id k =
     and_then (send_get_request env (''history/'' @ py_str prompt_id) k) (\<lambda>r.
     and_then (lift (json_body r)) (\<lambda>resp_json.
     and_then (lift (history_ready r resp_json)) (\<lambda>ready.
     if ready then next_with resp_json
     else and_then (emit (Sleep 200)) (\<lambda>_. poll_history fuel env prompt_id (Suc k)))))"

text \<open>Lines 135 to 140: reading and encoding the images.\<close>

fun read_images :: "env \<Rightarrow> json list \<Rightarrow> json list prog" where
  "read_images env [] = next_with []"
| "read_images env (image_filename # rest) =
     and_then (lift (py_getitem image_filename (JStr ''filename''))) (\<lambda>filename.
     and_then (emit (ReadFile (VOLUME_MOUNT_PATH @ ''/ComfyUI/output/'' @ py_str filename))) (\<lambda>_.
     and_then (lift (env_read env (VOLUME_MOUNT_PATH @ ''/ComfyUI/output/'' @ py_str filename))) (\<lambda>data.
     and_then (read_images env rest) (\<lambda>images.
     next_with (JStr (env_b64encode env data) # images)))))"

text \<open>Lines 129 to 142: after the loop.\<close>

definition collect_images :: "env \<Rightarrow> json \<Rightarrow> json \<Rightarrow> unit prog" where
  "collect_images env prompt_id resp_json =
     and_then (lift (py_getitem resp_json prompt_id)) (\<lambda>entry.
     and_then (lift (py_getitem entry (JStr ''outputs''))) (\<lambda>outputs.
     if \<not> py_truthy outputs then
       raise (RuntimeError ''No output found, check model and workflow validity'')
     else
       and_then (lift (get_filenames outputs)) (\<lambda>image_filenames.
       and_then (read_images env image_filenames) (\<lambda>images.
       return_with (JObj [(''images'', JList images)])))))"

subsection \<open>\<^verbatim>\<open>handler\<close>\<close>

text \<open>The \<^verbatim>\<open>try\<close> block of the handler, lines 81 to 142.\<close>

definition handler_try :: "nat \<Rightarrow> env \<Rightarrow> json \<Rightarrow> unit prog" where
  "handler_try fuel env event =
     and_then (validated_workflow env event) (\<lambda>(payload, workflow).
     and_then (handle_init_image env payload workflow) (\<lambda>workflow'.
     and_then (queue_workflow env workflow') (\<lambda>prompt_id.
     and_then (poll_history fuel env prompt_id 0) (\<lambda>resp_json.
     collect_images env prompt_id resp_json))))"

text \<open>
  The handler: the \<^verbatim>\<open>try\<close> block, and the \<^verbatim>\<open>except Exception\<close> of lines 144 to 146 that
  turns whatever was raised into \<^verbatim>\<open>{'error': str(e)}\<close>. The result is the value returned
  and the trace of the invocation; the value is \<open>None\<close> when the polling loop has not ended
  within \<open>fuel\<close> requests.
\<close>

definition handler :: "nat \<Rightarrow> env \<Rightarrow> json \<Rightarrow> json option \<times> trace" where
  "handler fuel env event =
     (case handler_try fuel env event [] of
        (Return v, tr) \<Rightarrow> (Some v, tr)
      | (Raise e, tr) \<Rightarrow> (Some (JObj [(''error'', JStr (str_exn e))]), tr)
      | (Running, tr) \<Rightarrow> (None, tr)
      | (Next u, tr) \<Rightarrow> (Some JNull, tr))"

section \<open>Vocabulary of the properties\<close>

text \<open>Kinds of events in a trace.\<close>

fun is_http_post :: "event \<Rightarrow> bool" where
  "is_http_post (HttpPost url payload) = True"
| "is_http_post ev = False"

fun is_http_get :: "event \<Rightarrow> bool" where
  "is_http_get (HttpGet url) = True"
| "is_http_get ev = False"

fun is_fs_write :: "event \<Rightarrow> bool" where
  "is_fs_write (MakeDirs path) = True"
| "is_fs_write (OpenWrite path) = True"
| "is_fs_write (WriteFile path data) = True"
| "is_fs_write ev = False"

fun is_after_submission :: "event \<Rightarrow> bool" where
  "is_after_submission (HttpGet url) = True"
| "is_after_submission (Sleep ms) = True"
| "is_after_submission (ReadFile path) = True"
| "is_after_submission ev = False"

text \<open>A piece of the handler that only ever adds events of one kind to the trace.\<close>

definition emits :: "(event \<Rightarrow> bool) \<Rightarrow> 'a prog \<Rightarrow> bool" where
  "emits P m = (\<forall>tr. \<exists>evs. snd (m tr) = tr @ evs \<and> list_all P evs)"

text \<open>A piece of the handler that never stays in the polling loop.\<close>

definition finishes :: "'a prog \<Rightarrow> bool" where
  "finishes m = (\<forall>tr. fst (m tr) \<noteq> Running)"

text \<open>The two payloads of the failure contract: \<^verbatim>\<open>{'images': [...]}\<close>, a list of
  strings under the one key, and \<^verbatim>\<open>{'error': ...}\<close>, a message (or the validator's list)
  under the one key.\<close>

fun is_str :: "json \<Rightarrow> bool" where
  "is_str (JStr s) = True"
| "is_str v = False"

fun is_dict :: "json \<Rightarrow> bool" where
  "is_dict (JObj kvs) = True"
| "is_dict v = False"

fun is_success_payload :: "json \<Rightarrow> bool" where
  "is_success_payload (JObj [(key, JList images)]) = (key = ''images'' \<and> list_all is_str images)"
| "is_success_payload v = False"

fun is_error_payload :: "json \<Rightarrow> bool" where
  "is_error_payload (JObj [(key, message)]) = (key = ''error'')"
| "is_error_payload v = False"

text \<open>The URLs of the two requests.\<close>

definition prompt_url :: string where
  "prompt_url = BASE_URI @ ''/'' @ ''prompt''"

definition history_url :: "json \<Rightarrow> string" where
  "history_url prompt_id = BASE_URI @ ''/'' @ ''history/'' @ py_str prompt_id"

text \<open>The request that submits a workflow.\<close>

definition submission :: "json \<Rightarrow> event" where
  "submission workflow = HttpPost prompt_url (JObj [(''prompt'', workflow)])"

text \<open>
  The answer to the \<open>k\<close>-th history request: populated with a body, when the status is 200
  and the decoded body is not empty; or one after which the loop goes on, when the body
  decodes and the status is not 200 or the body is empty.
\<close>

definition populated_with :: "env \<Rightarrow> json \<Rightarrow> nat \<Rightarrow> json \<Rightarrow> bool" where
  "populated_with env prompt_id k body =
     (case env_get env (history_url prompt_id) k of
        Inl e \<Rightarrow> False
      | Inr r \<Rightarrow>
          status_code r = 200 \<and> json_body r = Inr body \<and>
          (case py_len body of Inl e \<Rightarrow> False | Inr n \<Rightarrow> n \<noteq> 0))"

definition waiting :: "env \<Rightarrow> json \<Rightarrow> nat \<Rightarrow> bool" where
  "waiting env prompt_id k =
     (case env_get env (history_url prompt_id) k of
        Inl e \<Rightarrow> False
      | Inr r \<Rightarrow>
          (case json_body r of
             Inl e \<Rightarrow> False
           | Inr body \<Rightarrow> status_code r \<noteq> 200 \<or> py_len body = Inr 0))"

text \<open>\<open>n\<close> rounds of the loop that did not leave it: a request, then the pause.\<close>

definition rounds :: "json \<Rightarrow> nat \<Rightarrow> trace" where
  "rounds prompt_id n = concat (replicate n [HttpGet (history_url prompt_id), Sleep 200])"

text \<open>The \<^verbatim>\<open>images\<close> list of a node output, when it is a dict that has one.\<close>

definition images_list :: "json \<Rightarrow> json list option" where
  "images_list v =
     (case v of
        JObj kvs \<Rightarrow> (case map_of kvs ''images'' of Some (JList imgs) \<Rightarrow> Some imgs | _ \<Rightarrow> None)
      | _ \<Rightarrow> None)"

text \<open>The extractor as the specification words it: the images of the first entry whose
  \<^verbatim>\<open>images\<close> is a non-empty list, and nothing when there is none.\<close>

fun first_nonempty_images :: "(string \<times> json) list \<Rightarrow> json list" where
  "first_nonempty_images [] = []"
| "first_nonempty_images ((key, val) # rest) =
     (case images_list val of
        Some (img # imgs) \<Rightarrow> img # imgs
      | _ \<Rightarrow> first_nonempty_images rest)"

text \<open>A graph node of the data model: a dict with a string \<^verbatim>\<open>class_type\<close> and a dict
  \<^verbatim>\<open>inputs\<close>.\<close>

definition is_node :: "json \<Rightarrow> bool" where
  "is_node node =
     (case node of
        JObj kvs \<Rightarrow>
          (case map_of kvs ''class_type'' of Some (JStr s) \<Rightarrow> True | _ \<Rightarrow> False) \<and>
          (case map_of kvs ''inputs'' of Some (JObj ins) \<Rightarrow> True | _ \<Rightarrow> False)
      | _ \<Rightarrow> False)"

text \<open>The test of the specification on a node, in its own words: the \<^verbatim>\<open>class_type\<close> is
  a string whose first nine characters are those of \<^verbatim>\<open>loadimage\<close>, each in lower or in
  upper case.\<close>

definition loadimage_class :: "json \<Rightarrow> bool" where
  "loadimage_class node =
     (case node of
        JObj kvs \<Rightarrow>
          (case map_of kvs ''class_type'' of
             Some (JStr s) \<Rightarrow>
               9 \<le> length s \<and>
               list_all2 (\<lambda>c lu. c = fst lu \<or> c = snd lu) (take 9 s) (zip ''loadimage'' ''LOADIMAGE'')
           | _ \<Rightarrow> False)
      | _ \<Rightarrow> False)"

text \<open>The node after \<^verbatim>\<open>node["inputs"]["image"] = image_path\<close>, for a node with fields
  \<open>kvs\<close> whose inputs are \<open>ins\<close>.\<close>

definition with_image :: "(string \<times> json) list \<Rightarrow> (string \<times> json) list \<Rightarrow> string \<Rightarrow> json" where
  "with_image kvs ins image_path =
     JObj (dict_set kvs ''inputs'' (JObj (dict_set ins ''image'' (JStr image_path))))"

text \<open>No node of the workflow passes the test of line 100.\<close>

definition no_loadimage :: "json \<Rightarrow> bool" where
  "no_loadimage workflow =
     (case workflow of
        JObj nodes \<Rightarrow> list_all (\<lambda>entry. is_loadimage (snd entry) = Inr False) nodes
      | _ \<Rightarrow> False)"

text \<open>The directory and the file of \<^verbatim>\<open>save_init_image\<close>, and what it takes for it to go
  through: the directory, the opening of the file, the decoding and the writing succeed.\<close>

definition input_dir :: string where
  "input_dir = VOLUME_MOUNT_PATH @ ''/ComfyUI/input''"

definition init_image_path :: string where
  "init_image_path = input_dir @ ''/'' @ ''init.png''"

definition saves :: "env \<Rightarrow> string \<Rightarrow> bool" where
  "saves env base64_str =
     (env_makedirs env input_dir = None \<and>
      env_open_write env init_image_path = None \<and>
      (case env_b64decode env base64_str of
         Inl e \<Rightarrow> False
       | Inr data \<Rightarrow> env_write env init_image_path data = None))"

section \<open>Example worlds\<close>

text \<open>
  Concrete worlds and events on which the properties below are run. The validator of these
  worlds accepts every input as it is; their file system holds one output file and accepts
  every write; their codec leaves a text as it is (no property depends on what the codec
  computes).
\<close>

definition accept_all :: "json \<Rightarrow> exn + json" where
  "accept_all input = Inr (JObj [(''validated_input'', input)])"

definition world ::
    "(string \<Rightarrow> json \<Rightarrow> exn + response) \<Rightarrow> (string \<Rightarrow> nat \<Rightarrow> exn + response) \<Rightarrow> env" where
  "world post get = \<lparr>
     env_validate = accept_all,
     env_post = post,
     env_get = get,
     env_makedirs = (\<lambda>path. None),
     env_open_write = (\<lambda>path. None),
     env_write = (\<lambda>path data. None),
     env_read = (\<lambda>path. if path = ''/runpod-volume/ComfyUI/output/out.png''
                        then Inr ''PNG'' else Inl (External ''No such file or directory'')),
     env_b64decode = (\<lambda>text. Inr text),
     env_b64encode = (\<lambda>data. data) \<rparr>"

definition refused :: "exn + response" where
  "refused = Inl (External ''Connection refused'')"

definition no_engine :: env where
  "no_engine = world (\<lambda>url payload. refused) (\<lambda>url k. refused)"

definition answer :: "int \<Rightarrow> json \<Rightarrow> exn + response" where
  "answer status body = Inr \<lparr> status_code = status, json_body = Inr body \<rparr>"

definition queued :: "exn + response" where
  "queued = answer 200 (JObj [(''prompt_id'', JStr ''abc'')])"

definition history_of :: "json \<Rightarrow> json" where
  "history_of entry = JObj [(''abc'', entry)]"

definition finished :: json where
  "finished =
     history_of (JObj [(''outputs'',
       JObj [(''9'', JObj [(''images'', JList [JObj [(''filename'', JStr ''out.png'')]])])])])"

text \<open>An engine that refuses the workflow, one that queues it without an identifier, one
  whose history is populated at the third request, one whose history never is, one whose job
  ends without outputs, and one whose history entry has no \<^verbatim>\<open>outputs\<close> key.\<close>

definition rejecting_engine :: env where
  "rejecting_engine =
     world (\<lambda>url payload. answer 500 (JObj [(''detail'', JStr ''bad node'')])) (\<lambda>url k. refused)"

definition forgetful_engine :: env where
  "forgetful_engine = world (\<lambda>url payload. answer 200 (JObj [(''node_errors'', JObj [])])) (\<lambda>url k. refused)"

definition slow_engine :: env where
  "slow_engine =
     world (\<lambda>url payload. queued) (\<lambda>url k. answer 200 (if k < 2 then JObj [] else finished))"

definition stuck_engine :: env where
  "stuck_engine = world (\<lambda>url payload. queued) (\<lambda>url k. answer 200 (JObj []))"

definition barren_engine :: env where
  "barren_engine =
     world (\<lambda>url payload. queued) (\<lambda>url k. answer 200 (history_of (JObj [(''outputs'', JObj [])])))"

definition bare_engine :: env where
  "bare_engine =
     world (\<lambda>url payload. queued) (\<lambda>url k. answer 200 (history_of (JObj [(''status'', JStr ''done'')])))"

text \<open>Nodes, workflows and events.\<close>

definition ksampler :: json where
  "ksampler = JObj [(''class_type'', JStr ''KSampler''), (''inputs'', JObj [(''seed'', JInt 7)])]"

definition loader :: json where
  "loader = JObj [(''class_type'', JStr ''LoadImage''), (''inputs'', JObj [(''image'', JStr ''old.png'')])]"

definition mask_loader :: json where
  "mask_loader = JObj [(''class_type'', JStr ''LOADIMAGEMASK''), (''inputs'', JObj [])]"

definition plain_workflow :: json where
  "plain_workflow = JObj [(''1'', ksampler)]"

definition image_nodes :: "(string \<times> json) list" where
  "image_nodes = [(''1'', ksampler), (''2'', loader), (''3'', mask_loader)]"

definition preview :: json where
  "preview = JObj [(''class_type'', JStr ''PreviewLoadImage''), (''inputs'', JObj [(''image'', JStr ''keep.png'')])]"

definition mixed_nodes :: "(string \<times> json) list" where
  "mixed_nodes = [(''1'', ksampler), (''2'', preview), (''3'', loader), (''4'', mask_loader)]"

definition event_of :: "(string \<times> json) list \<Rightarrow> json" where
  "event_of entries = JObj [(''input'', JObj entries)]"

definition empty_then_image :: "(string \<times> json) list" where
  "empty_then_image =
     [(''3'', JObj [(''images'', JList [])]),
      (''9'', JObj [(''images'', JList [JObj [(''filename'', JStr ''out.png'')]])])]"

section \<open>Properties\<close>

lemmas prog_defs = and_then_def lift_def check_def emit_def next_with_def return_with_def
  raise_def out_of_fuel_def

subsection \<open>The example worlds, evaluated\<close>

lemmas handler_defs = handler_def handler_try_def validated_workflow_def handle_init_image_def
  queue_workflow_def collect_images_def get_filenames_def save_init_image_def
  send_post_request_def send_get_request_def history_ready_def Let_def

lemmas world_defs = world_def accept_all_def answer_def queued_def refused_def history_of_def
  finished_def event_of_def plain_workflow_def image_nodes_def BASE_URI_def VOLUME_MOUNT_PATH_def prompt_url_def history_url_def
  submission_def input_dir_def init_image_path_def

lemma example_nodes:
  "is_loadimage ksampler = Inr False"
  "is_loadimage loader = Inr True"
  "is_loadimage mask_loader = Inr True"
  by code_simp+

lemma example_nodes_shape:
  "is_node ksampler" "is_node loader" "is_node mask_loader"
  by (simp_all add: is_node_def ksampler_def loader_def mask_loader_def)

lemma loader_patched:
  "set_input_image loader image_path =
     Inr (with_image [(''class_type'', JStr ''LoadImage''),
                      (''inputs'', JObj [(''image'', JStr ''old.png'')])]
            [(''image'', JStr ''old.png'')] image_path)"
  by (simp add: loader_def set_input_image_def with_image_def)

lemma plain_event_validated:
  "validated_workflow env0 (event_of [(''workflow'', plain_workflow)]) [] =
     (Next (JObj [(''workflow'', plain_workflow)], plain_workflow), [])"
  if "env_validate env0 = accept_all"
  using that by (simp add: validated_workflow_def prog_defs event_of_def accept_all_def)

lemma with_init_image_validated:
  "validated_workflow env0 (event_of [(''workflow'', workflow), (''init_image'', v)]) [] =
     (Next (JObj [(''workflow'', workflow), (''init_image'', v)], workflow), [])"
  if "env_validate env0 = accept_all"
  using that by (simp add: validated_workflow_def prog_defs event_of_def accept_all_def)

lemma world_parts:
  "env_validate (world post get) = accept_all"
  "env_post (world post get) = post"
  "env_get (world post get) = get"
  by (simp_all add: world_def)

lemma world_saves: "saves (world post get) base64_str"
  by (simp add: saves_def world_def)

subsection \<open>What each piece adds to the trace\<close>

lemma emits_and_then:
  assumes "emits P m" and "\<And>x. emits P (f x)"
  shows "emits P (and_then m f)"
  unfolding emits_def
proof
  fix tr
  from assms(1) obtain evs where m: "snd (m tr) = tr @ evs" "list_all P evs"
    unfolding emits_def by blast
  show "\<exists>evs. snd (and_then m f tr) = tr @ evs \<and> list_all P evs"
  proof (cases "fst (m tr)")
    case (Next x)
    from assms(2) [of x] obtain evs' where f: "snd (f x (tr @ evs)) = (tr @ evs) @ evs'" "list_all P evs'"
      unfolding emits_def by blast
    from Next m f have "snd (and_then m f tr) = tr @ (evs @ evs')"
      by (cases "m tr") (simp add: and_then_def)
    with m f show ?thesis by (intro exI [of _ "evs @ evs'"]) simp
  next
    case (Return v)
    with m show ?thesis by (cases "m tr") (auto simp: and_then_def)
  next
    case (Raise e)
    with m show ?thesis by (cases "m tr") (auto simp: and_then_def)
  next
    case Running
    with m show ?thesis by (cases "m tr") (auto simp: and_then_def)
  qed
qed

lemma emits_silent:
  "emits P (lift r)" "emits P (check c)" "emits P (next_with x)" "emits P (return_with v)"
  "emits P (raise e)" "emits P out_of_fuel"
  by (auto simp: emits_def prog_defs split: sum.splits option.splits)

lemma emits_emit: "P ev \<Longrightarrow> emits P (emit ev)"
  by (simp add: emits_def emit_def)

lemma emits_if: "emits P a \<Longrightarrow> emits P b \<Longrightarrow> emits P (if c then a else b)"
  by simp

lemma emits_validated_workflow: "emits P (validated_workflow env event)"
  unfolding validated_workflow_def
  by (intro emits_and_then emits_if emits_silent)

lemma emits_save_init_image: "emits is_fs_write (save_init_image env base64_str)"
  unfolding save_init_image_def Let_def
  by (intro emits_and_then emits_silent emits_emit) simp_all

lemma emits_handle_init_image: "emits is_fs_write (handle_init_image env payload workflow)"
proof -
  have *: "emits is_fs_write
     (case init_image of
         JStr base64_str \<Rightarrow>
           and_then (save_init_image env base64_str) (\<lambda>image_path.
           and_then (lift (py_items workflow)) (\<lambda>items.
           and_then (lift (patch_loop image_path items)) (\<lambda>items'.
           next_with (JObj items'))))
       | _ \<Rightarrow> next_with workflow)" for init_image
    by (cases init_image) (auto intro!: emits_and_then emits_silent emits_save_init_image)
  show ?thesis
    unfolding handle_init_image_def
    by (intro emits_and_then emits_if emits_silent *)
qed

lemma emits_poll_history: "emits is_after_submission (poll_history fuel env prompt_id k)"
proof (induction fuel arbitrary: k)
  case 0
  show ?case by (simp add: emits_silent)
next
  case (Suc fuel)
  show ?case
    unfolding poll_history.simps send_get_request_def Let_def
    by (intro emits_and_then emits_if emits_silent emits_emit Suc) simp_all
qed

lemma emits_read_images: "emits is_after_submission (read_images env names)"
proof (induction names)
  case Nil
  show ?case by (simp add: emits_silent)
next
  case (Cons name names)
  show ?case
    unfolding read_images.simps
    by (intro emits_and_then emits_silent emits_emit Cons) simp_all
qed

lemma emits_collect_images: "emits is_after_submission (collect_images env prompt_id resp_json)"
  unfolding collect_images_def
  by (intro emits_and_then emits_if emits_silent emits_read_images)

lemma emits_after_queue:
  "emits is_after_submission
     (and_then (poll_history fuel env prompt_id 0) (\<lambda>resp_json.
        collect_images env prompt_id resp_json))"
  by (intro emits_and_then emits_poll_history emits_collect_images)

lemma validated_workflow_trace:
  assumes "validated_workflow env event tr = (r, tr')"
  shows "tr' = tr"
proof -
  from emits_validated_workflow [of "\<lambda>ev. False" env event]
  obtain evs where evs: "snd (validated_workflow env event tr) = tr @ evs"
    "list_all (\<lambda>ev. False) evs" unfolding emits_def by blast
  from evs(2) have "evs = []" by (cases evs) auto
  with evs(1) assms show ?thesis by simp
qed

lemma not_submission:
  "is_after_submission ev \<Longrightarrow> \<not> is_http_post ev \<and> \<not> is_fs_write ev"
  "is_fs_write ev \<Longrightarrow> \<not> is_http_post ev \<and> \<not> is_http_get ev"
  by (cases ev; simp)+

lemma filter_other_kind:
  "list_all is_after_submission evs \<Longrightarrow> filter is_http_post evs = [] \<and> filter is_fs_write evs = []"
  "list_all is_fs_write evs \<Longrightarrow> filter is_http_post evs = [] \<and> filter is_http_get evs = []"
  by (auto simp: filter_empty_conv list_all_iff dest: not_submission)

subsection \<open>How the pieces follow one another\<close>

lemma and_then_assoc:
  "and_then (and_then m f) g = and_then m (\<lambda>x. and_then (f x) g)"
  by (rule ext) (simp add: and_then_def split: prod.splits flow.splits)

lemma and_then_Return:
  "and_then m f tr = (Return v, tr') \<Longrightarrow>
   m tr = (Return v, tr') \<or> (\<exists>x tr1. m tr = (Next x, tr1) \<and> f x tr1 = (Return v, tr'))"
  by (auto simp: and_then_def split: prod.splits flow.splits)

lemma and_then_Next:
  "and_then m f tr = (Next y, tr') \<Longrightarrow> \<exists>x tr1. m tr = (Next x, tr1) \<and> f x tr1 = (Next y, tr')"
  by (auto simp: and_then_def split: prod.splits flow.splits)

lemma emit_then:
  assumes "emits P m"
  shows "\<exists>evs. snd (and_then (emit ev) (\<lambda>u. m) tr) = tr @ ev # evs \<and> list_all P evs"
proof -
  from assms obtain evs where "snd (m (tr @ [ev])) = (tr @ [ev]) @ evs" "list_all P evs"
    unfolding emits_def by blast
  then show ?thesis by (intro exI [of _ evs]) (simp add: and_then_def emit_def)
qed

lemma after_submission:
  assumes "\<And>prompt_id. emits is_after_submission (K prompt_id)"
  shows "\<exists>evs. snd (and_then (queue_workflow env workflow) K tr) = tr @ submission workflow # evs
           \<and> list_all is_after_submission evs"
  unfolding queue_workflow_def send_post_request_def Let_def and_then_assoc submission_def
    prompt_url_def
  by (rule emit_then) (intro emits_and_then emits_if emits_silent assms)

lemma handler_trace_is_try: "snd (handler fuel env event) = snd (handler_try fuel env event [])"
  by (simp add: handler_def split: prod.splits flow.splits)

lemma handler_try_after_init:
  assumes "validated_workflow env event [] = (Next (payload, workflow), tr0)"
    and "handle_init_image env payload workflow tr0 = (Next workflow', tr1)"
  shows "handler_try fuel env event [] =
     and_then (queue_workflow env workflow') (\<lambda>prompt_id.
       and_then (poll_history fuel env prompt_id 0) (\<lambda>resp_json.
         collect_images env prompt_id resp_json)) tr1"
  using assms by (simp add: handler_try_def and_then_def)

lemma handler_trace_after_init:
  assumes "validated_workflow env event [] = (Next (payload, workflow), tr0)"
    and "handle_init_image env payload workflow tr0 = (Next workflow', tr1)"
  shows "\<exists>evs. snd (handler fuel env event) = tr1 @ submission workflow' # evs
           \<and> list_all is_after_submission evs"
  unfolding handler_trace_is_try handler_try_after_init [OF assms]
  by (rule after_submission) (rule emits_after_queue)

lemma init_image_trace:
  assumes "validated_workflow env event [] = (Next (payload, workflow), tr0)"
    and "handle_init_image env payload workflow tr0 = (out, tr1)"
  shows "list_all is_fs_write tr1"
proof -
  from assms(1) have "tr0 = []" by (simp add: validated_workflow_trace)
  moreover from emits_handle_init_image [of env payload workflow]
  obtain evs where "snd (handle_init_image env payload workflow tr0) = tr0 @ evs"
    "list_all is_fs_write evs" unfolding emits_def by blast
  ultimately show ?thesis using assms(2) by simp
qed

lemma queue_workflow_rejected:
  assumes "env_post env prompt_url (JObj [(''prompt'', workflow)]) = Inr r"
    and "status_code r \<noteq> 200" and "json_body r = Inr body"
  shows "queue_workflow env workflow tr = (Return body, tr @ [submission workflow])"
  using assms
  by (simp add: queue_workflow_def send_post_request_def prog_defs submission_def prompt_url_def)

lemma queue_workflow_no_id:
  assumes "env_post env prompt_url (JObj [(''prompt'', workflow)]) = Inr r"
    and "status_code r = 200" and "json_body r = Inr resp_json"
    and "py_get resp_json ''prompt_id'' JNull = Inr prompt_id" and "\<not> py_truthy prompt_id"
  shows "queue_workflow env workflow tr =
     (Return (JObj [(''error'', JStr ''No prompt_id returned by ComfyUI'')]), tr @ [submission workflow])"
  using assms
  by (simp add: queue_workflow_def send_post_request_def prog_defs submission_def prompt_url_def)

lemma handler_of_return:
  "handler_try fuel env event [] = (Return v, tr) \<Longrightarrow> handler fuel env event = (Some v, tr)"
  by (simp add: handler_def)

lemma handler_of_raise:
  "handler_try fuel env event [] = (Raise e, tr) \<Longrightarrow>
   handler fuel env event = (Some (JObj [(''error'', JStr (str_exn e))]), tr)"
  by (simp add: handler_def)

subsection \<open>A payload without a workflow\<close>

text \<open>
  C8. When the validator reports no errors and the payload it validated has no
  \<^verbatim>\<open>workflow\<close> key, the handler returns \<^verbatim>\<open>{'error': 'Missing workflow in payload'}\<close>
  and its trace is empty: no request is made to the engine, and nothing else is done to the
  outside either.
\<close>

theorem missing_workflow_no_request:
  assumes "py_getitem event (JStr ''input'') = Inr input"
    and "env_validate env input = Inr validated_input"
    and "py_contains ''errors'' validated_input = Inr False"
    and "py_getitem validated_input (JStr ''validated_input'') = Inr payload"
    and "py_contains ''workflow'' payload = Inr False"
  shows "handler fuel env event =
           (Some (JObj [(''error'', JStr ''Missing workflow in payload'')]), [])"
  using assms by (simp add: handler_def handler_try_def validated_workflow_def prog_defs)

theorem missing_workflow_no_request_witness:
  "handler 3 no_engine (JObj [(''input'', JObj [(''init_image'', JStr ''QUJD'')])]) =
     (Some (JObj [(''error'', JStr ''Missing workflow in payload'')]), [])"
  by (rule missing_workflow_no_request [where input = "JObj [(''init_image'', JStr ''QUJD'')]"
        and validated_input = "JObj [(''validated_input'', JObj [(''init_image'', JStr ''QUJD'')])]"
        and payload = "JObj [(''init_image'', JStr ''QUJD'')]"])
     (simp_all add: no_engine_def world_def accept_all_def)

subsection \<open>A submission the engine refuses\<close>

text \<open>
C2. When the payload has been validated, the init image handled, and the engine answers
  the submission with a status other than 200 and a body that decodes as JSON, line 113
  returns that decoded body itself, unchanged: what the caller gets is the engine's own error
  body (for a 500 with \<^verbatim>\<open>{'detail': 'bad node'}\<close>, that very dict), not a message
  under an \<^verbatim>\<open>error\<close> key. The submission is the last event of the trace.
\<close>

theorem rejected_submission_returns_body:
  assumes "validated_workflow env event [] = (Next (payload, workflow), tr0)"
    and "handle_init_image env payload workflow tr0 = (Next workflow', tr1)"
    and "env_post env prompt_url (JObj [(''prompt'', workflow')]) = Inr r"
    and "status_code r \<noteq> 200"
    and "json_body r = Inr body"
  shows "handler fuel env event = (Some body, tr1 @ [submission workflow'])"
  by (rule handler_of_return)
     (simp add: handler_try_after_init [OF assms(1,2)] and_then_def
        queue_workflow_rejected [OF assms(3,4,5)])

theorem rejected_submission_returns_body_witness:
  "handler 0 rejecting_engine (event_of [(''workflow'', plain_workflow)]) =
     (Some (JObj [(''detail'', JStr ''bad node'')]), [submission plain_workflow])"
proof -
  have v: "validated_workflow rejecting_engine (event_of [(''workflow'', plain_workflow)]) [] =
     (Next (JObj [(''workflow'', plain_workflow)], plain_workflow), [])"
    by (rule plain_event_validated) (simp add: rejecting_engine_def world_parts)
  have h: "handle_init_image rejecting_engine (JObj [(''workflow'', plain_workflow)]) plain_workflow [] =
     (Next plain_workflow, [])"
    by (simp add: handle_init_image_def prog_defs)
  have p: "env_post rejecting_engine prompt_url (JObj [(''prompt'', plain_workflow)]) =
     Inr \<lparr> status_code = 500, json_body = Inr (JObj [(''detail'', JStr ''bad node'')]) \<rparr>"
    by (simp add: rejecting_engine_def world_parts answer_def)
  from rejected_submission_returns_body [OF v h p] show ?thesis by simp
qed

text \<open>
The engine refuses a workflow with status 500 and the body
  \<^verbatim>\<open>{'detail': 'bad node'}\<close>: the handler returns that dict, which has no
  \<^verbatim>\<open>error\<close> key.
\<close>

theorem rejected_submission_counterexample:
  "fst (handler 0 rejecting_engine (event_of [(''workflow'', plain_workflow)])) =
     Some (JObj [(''detail'', JStr ''bad node'')]) \<and>
   py_contains ''error'' (JObj [(''detail'', JStr ''bad node'')]) = Inr False"
  by (simp add: handler_defs prog_defs world_defs rejecting_engine_def)

text \<open>
C9. When the engine answers the submission with status 200 and a body in which
  \<^verbatim>\<open>get('prompt_id')\<close> finds nothing (the default \<^verbatim>\<open>None\<close>) or a falsy value,
  the handler returns \<^verbatim>\<open>{'error': 'No prompt_id returned by ComfyUI'}\<close>, and its trace
  holds no history request: the polling loop is never entered.
\<close>

theorem submission_without_id:
  assumes "validated_workflow env event [] = (Next (payload, workflow), tr0)"
    and "handle_init_image env payload workflow tr0 = (Next workflow', tr1)"
    and "env_post env prompt_url (JObj [(''prompt'', workflow')]) = Inr r"
    and "status_code r = 200"
    and "json_body r = Inr resp_json"
    and "py_get resp_json ''prompt_id'' JNull = Inr prompt_id"
    and "\<not> py_truthy prompt_id"
  shows "fst (handler fuel env event) =
           Some (JObj [(''error'', JStr ''No prompt_id returned by ComfyUI'')]) \<and>
         filter is_http_get (snd (handler fuel env event)) = []"
proof -
  have "handler fuel env event =
      (Some (JObj [(''error'', JStr ''No prompt_id returned by ComfyUI'')]), tr1 @ [submission workflow'])"
    by (rule handler_of_return)
       (simp add: handler_try_after_init [OF assms(1,2)] and_then_def
          queue_workflow_no_id [OF assms(3,4,5,6,7)])
  moreover from init_image_trace [OF assms(1,2)] have "filter is_http_get tr1 = []"
    by (simp add: filter_other_kind)
  ultimately show ?thesis by (simp add: submission_def)
qed

theorem submission_without_id_witness:
  "fst (handler (Suc (Suc 0)) forgetful_engine (event_of [(''workflow'', plain_workflow)])) =
     Some (JObj [(''error'', JStr ''No prompt_id returned by ComfyUI'')]) \<and>
   filter is_http_get (snd (handler (Suc (Suc 0)) forgetful_engine
     (event_of [(''workflow'', plain_workflow)]))) = []"
proof -
  have v: "validated_workflow forgetful_engine (event_of [(''workflow'', plain_workflow)]) [] =
     (Next (JObj [(''workflow'', plain_workflow)], plain_workflow), [])"
    by (rule plain_event_validated) (simp add: forgetful_engine_def world_parts)
  have h: "handle_init_image forgetful_engine (JObj [(''workflow'', plain_workflow)]) plain_workflow [] =
     (Next plain_workflow, [])"
    by (simp add: handle_init_image_def prog_defs)
  have p: "env_post forgetful_engine prompt_url (JObj [(''prompt'', plain_workflow)]) =
     Inr \<lparr> status_code = 200, json_body = Inr (JObj [(''node_errors'', JObj [])]) \<rparr>"
    by (simp add: forgetful_engine_def world_parts answer_def)
  have g: "py_get (JObj [(''node_errors'', JObj [])]) ''prompt_id'' JNull = Inr JNull" by simp
  show ?thesis by (rule submission_without_id [OF v h p _ _ g]) simp_all
qed

text \<open>
C5. When the polling loop has been left with a history in which the entry of the job
  identifier has an \<^verbatim>\<open>outputs\<close> value that is empty (falsy), the handler returns
  \<^verbatim>\<open>{'error': 'No output found, check model and workflow validity'}\<close>, and nothing is
  read after the loop.
\<close>

theorem no_outputs_error:
  assumes "validated_workflow env event [] = (Next (payload, workflow), tr0)"
    and "handle_init_image env payload workflow tr0 = (Next workflow', tr1)"
    and "queue_workflow env workflow' tr1 = (Next prompt_id, tr2)"
    and "poll_history fuel env prompt_id 0 tr2 = (Next resp_json, tr3)"
    and "py_getitem resp_json prompt_id = Inr entry"
    and "py_getitem entry (JStr ''outputs'') = Inr outputs"
    and "\<not> py_truthy outputs"
  shows "handler fuel env event =
     (Some (JObj [(''error'', JStr ''No output found, check model and workflow validity'')]), tr3)"
proof -
  have "collect_images env prompt_id resp_json tr3 =
      (Raise (RuntimeError ''No output found, check model and workflow validity''), tr3)"
    using assms(5,6,7) by (simp add: collect_images_def prog_defs)
  then have "handler_try fuel env event [] =
      (Raise (RuntimeError ''No output found, check model and workflow validity''), tr3)"
    by (simp add: handler_try_after_init [OF assms(1,2)] and_then_def assms(3,4))
  from handler_of_raise [OF this] show ?thesis by simp
qed

theorem no_outputs_error_witness:
  "handler (Suc 0) barren_engine (event_of [(''workflow'', plain_workflow)]) =
     (Some (JObj [(''error'', JStr ''No output found, check model and workflow validity'')]),
      [submission plain_workflow, HttpGet (history_url (JStr ''abc''))])"
proof -
  have v: "validated_workflow barren_engine (event_of [(''workflow'', plain_workflow)]) [] =
     (Next (JObj [(''workflow'', plain_workflow)], plain_workflow), [])"
    by (rule plain_event_validated) (simp add: barren_engine_def world_parts)
  have h: "handle_init_image barren_engine (JObj [(''workflow'', plain_workflow)]) plain_workflow [] =
     (Next plain_workflow, [])"
    by (simp add: handle_init_image_def prog_defs)
  have q: "queue_workflow barren_engine plain_workflow [] = (Next (JStr ''abc''), [submission plain_workflow])"
    by (simp add: queue_workflow_def send_post_request_def prog_defs barren_engine_def world_parts
          answer_def queued_def submission_def prompt_url_def)
  have p: "poll_history (Suc 0) barren_engine (JStr ''abc'') 0 [submission plain_workflow] =
     (Next (history_of (JObj [(''outputs'', JObj [])])),
      [submission plain_workflow, HttpGet (history_url (JStr ''abc''))])"
    by (simp add: poll_history.simps send_get_request_def history_ready_def prog_defs
          barren_engine_def world_parts answer_def history_of_def history_url_def)
  have e: "py_getitem (history_of (JObj [(''outputs'', JObj [])])) (JStr ''abc'') =
     Inr (JObj [(''outputs'', JObj [])])" by (simp add: history_of_def)
  have o: "py_getitem (JObj [(''outputs'', JObj [])]) (JStr ''outputs'') = Inr (JObj [])" by simp
  have f: "\<not> py_truthy (JObj [])" by simp
  show ?thesis by (rule no_outputs_error [OF v h q p e o f])
qed

text \<open>
The history is populated with an entry that has no \<^verbatim>\<open>outputs\<close> key: the subscript of
  line 129 raises \<^verbatim>\<open>KeyError\<close>, and the message returned is the repr of the key, not the
  text of line 130.
\<close>

theorem absent_outputs_counterexample:
  "fst (handler (Suc 0) bare_engine (event_of [(''workflow'', plain_workflow)])) =
     Some (JObj [(''error'', JStr (squote # ''outputs'' @ [squote]))]) \<and>
   JStr (squote # ''outputs'' @ [squote]) \<noteq> JStr ''No output found, check model and workflow validity'' \<and>
   py_contains ''outputs'' (JObj [(''status'', JStr ''done'')]) = Inr False"
  by (simp add: handler_defs prog_defs world_defs bare_engine_def repr_str_def repr_char_def
        squote_def dquote_def backslash_def printable_def)

subsection \<open>The init image\<close>

lemma save_init_image_ok:
  assumes "saves env base64_str"
  shows "\<exists>data. save_init_image env base64_str tr =
     (Next init_image_path,
      tr @ [MakeDirs input_dir, OpenWrite init_image_path, WriteFile init_image_path data])"
  using assms
  by (auto simp: saves_def save_init_image_def input_dir_def init_image_path_def prog_defs
      Let_def split: sum.splits)

lemma is_node_shape:
  assumes "is_node node"
  shows "\<exists>kvs s ins. node = JObj kvs \<and> map_of kvs ''class_type'' = Some (JStr s) \<and>
           map_of kvs ''inputs'' = Some (JObj ins)"
proof -
  from assms obtain kvs where kvs: "node = JObj kvs"
    by (cases node) (auto simp: is_node_def)
  from assms kvs obtain ct where ct: "map_of kvs ''class_type'' = Some ct"
    by (cases "map_of kvs ''class_type''") (auto simp: is_node_def)
  from assms kvs ct obtain s where s: "ct = JStr s"
    by (cases ct) (auto simp: is_node_def)
  from assms kvs ct s obtain inp where inp: "map_of kvs ''inputs'' = Some inp"
    by (cases "map_of kvs ''inputs''") (auto simp: is_node_def)
  from assms kvs ct s inp obtain ins where "inp = JObj ins"
    by (cases inp) (auto simp: is_node_def)
  with kvs ct s inp show ?thesis by blast
qed

lemma is_node_loadimage: "is_node node \<Longrightarrow> \<exists>b. is_loadimage node = Inr b"
  by (drule is_node_shape) (auto simp: is_loadimage_def)

lemma set_input_image_node:
  "map_of kvs ''inputs'' = Some (JObj ins) \<Longrightarrow>
   set_input_image (JObj kvs) image_path = Inr (with_image kvs ins image_path)"
  by (simp add: set_input_image_def with_image_def)

lemma patch_loop_no_match:
  "list_all (\<lambda>entry. is_loadimage (snd entry) = Inr False) nodes \<Longrightarrow>
   patch_loop image_path nodes = Inr nodes"
  by (induction nodes) auto

lemma patch_loop_first:
  assumes "list_all (\<lambda>entry. is_node (snd entry)) nodes"
    and "list_ex (\<lambda>entry. is_loadimage (snd entry) = Inr True) nodes"
  shows "\<exists>i kvs ins. i < length nodes \<and> snd (nodes ! i) = JObj kvs \<and>
       map_of kvs ''inputs'' = Some (JObj ins) \<and>
       is_loadimage (snd (nodes ! i)) = Inr True \<and>
       (\<forall>j<i. is_loadimage (snd (nodes ! j)) = Inr False) \<and>
       patch_loop image_path nodes =
         Inr (nodes[i := (fst (nodes ! i), with_image kvs ins image_path)])"
  using assms
proof (induction nodes)
  case Nil
  then show ?case by simp
next
  case (Cons entry nodes)
  obtain node_id node where entry: "entry = (node_id, node)" by (cases entry)
  from Cons.prems(1) entry have node: "is_node node" by simp
  from is_node_loadimage [OF node] obtain b where b: "is_loadimage node = Inr b" ..
  show ?case
  proof (cases b)
    case True
    from is_node_shape [OF node] obtain kvs ins where
      shape: "node = JObj kvs" "map_of kvs ''inputs'' = Some (JObj ins)" by blast
    have "patch_loop image_path (entry # nodes) =
        Inr ((entry # nodes)[0 := (fst ((entry # nodes) ! 0), with_image kvs ins image_path)])"
      using True b shape by (simp add: entry set_input_image_node)
    moreover have "snd ((entry # nodes) ! 0) = JObj kvs" using shape by (simp add: entry)
    moreover have "is_loadimage (snd ((entry # nodes) ! 0)) = Inr True"
      using True b by (simp add: entry)
    ultimately show ?thesis using shape(2) by (intro exI [of _ 0] exI [of _ kvs] exI [of _ ins]) simp
  next
    case False
    with b Cons.prems entry have "list_all (\<lambda>entry. is_node (snd entry)) nodes"
      "list_ex (\<lambda>entry. is_loadimage (snd entry) = Inr True) nodes" by auto
    from Cons.IH [OF this] obtain i kvs ins where i: "i < length nodes" "snd (nodes ! i) = JObj kvs"
      "map_of kvs ''inputs'' = Some (JObj ins)" "is_loadimage (snd (nodes ! i)) = Inr True"
      "\<forall>j<i. is_loadimage (snd (nodes ! j)) = Inr False"
      "patch_loop image_path nodes = Inr (nodes[i := (fst (nodes ! i), with_image kvs ins image_path)])"
      by blast
    have before: "\<forall>j<Suc i. is_loadimage (snd ((entry # nodes) ! j)) = Inr False"
    proof (intro allI impI)
      fix j assume "j < Suc i"
      then show "is_loadimage (snd ((entry # nodes) ! j)) = Inr False"
        using False b i(5) by (cases j) (auto simp: entry)
    qed
    have "patch_loop image_path (entry # nodes) =
        Inr ((entry # nodes)[Suc i := (fst ((entry # nodes) ! Suc i), with_image kvs ins image_path)])"
      using False b i(6) by (simp add: entry)
    with i before show ?thesis
      by (intro exI [of _ "Suc i"] exI [of _ kvs] exI [of _ ins]) simp
  qed
qed

lemma init_image_lookup:
  "map_of entries ''init_image'' = Some v \<Longrightarrow>
   py_contains ''init_image'' (JObj entries) = Inr True \<and>
   py_getitem (JObj entries) (JStr ''init_image'') = Inr v"
  by (auto dest: map_of_SomeD simp: image_iff intro: bexI [of _ "(''init_image'', v)"])

lemma handle_init_image_absent:
  assumes "map_of entries ''init_image'' = None"
  shows "handle_init_image env (JObj entries) workflow tr = (Next workflow, tr)"
proof -
  from assms have "''init_image'' \<notin> fst ` set entries" by (simp add: map_of_eq_None_iff)
  then show ?thesis by (simp add: handle_init_image_def prog_defs)
qed

lemma handle_init_image_not_str:
  "map_of entries ''init_image'' = Some v \<Longrightarrow> \<not> is_str v \<Longrightarrow>
   handle_init_image env (JObj entries) workflow tr = (Next workflow, tr)"
  by (cases v) (simp_all add: handle_init_image_def prog_defs init_image_lookup)

lemma handle_init_image_str:
  assumes "map_of entries ''init_image'' = Some (JStr base64_str)"
    and "saves env base64_str"
    and "patch_loop init_image_path nodes = Inr nodes'"
  shows "\<exists>data. handle_init_image env (JObj entries) (JObj nodes) tr =
     (Next (JObj nodes'),
      tr @ [MakeDirs input_dir, OpenWrite init_image_path, WriteFile init_image_path data])"
proof -
  from save_init_image_ok [OF assms(2)] obtain data where
    "save_init_image env base64_str tr =
     (Next init_image_path,
      tr @ [MakeDirs input_dir, OpenWrite init_image_path, WriteFile init_image_path data])" ..
  then show ?thesis
    using init_image_lookup [OF assms(1)] assms(3)
    by (intro exI [of _ data]) (simp add: handle_init_image_def prog_defs)
qed

lemma posts_after_init:
  assumes "validated_workflow env event [] = (Next (payload, workflow), tr0)"
    and "handle_init_image env payload workflow tr0 = (Next workflow', tr1)"
  shows "filter is_http_post (snd (handler fuel env event)) = [submission workflow']"
    and "filter is_fs_write (snd (handler fuel env event)) = filter is_fs_write tr1"
proof -
  from handler_trace_after_init [OF assms] obtain evs where
    evs: "snd (handler fuel env event) = tr1 @ submission workflow' # evs"
      "list_all is_after_submission evs" by blast
  from init_image_trace [OF assms] have "filter is_http_post tr1 = []"
    by (simp add: filter_other_kind)
  with evs show "filter is_http_post (snd (handler fuel env event)) = [submission workflow']"
    by (simp add: filter_other_kind submission_def)
  from evs show "filter is_fs_write (snd (handler fuel env event)) = filter is_fs_write tr1"
    by (simp add: filter_other_kind submission_def)
qed

text \<open>
C10. When the validated payload holds an \<^verbatim>\<open>init_image\<close> that is not a string, lines
  96 to 103 do nothing: they raise no error and leave the trace and the workflow as they
  were; no directory is made and no file opened or written in the whole invocation; and the
  one submission of the invocation carries the workflow unchanged.
\<close>

theorem non_string_init_image_ignored:
  assumes "validated_workflow env event [] = (Next (JObj entries, workflow), tr0)"
    and "map_of entries ''init_image'' = Some v"
    and "\<not> is_str v"
  shows "handle_init_image env (JObj entries) workflow tr0 = (Next workflow, tr0) \<and>
         filter is_fs_write (snd (handler fuel env event)) = [] \<and>
         filter is_http_post (snd (handler fuel env event)) = [submission workflow]"
proof -
  have h: "handle_init_image env (JObj entries) workflow tr0 = (Next workflow, tr0)"
    using assms(2,3) by (rule handle_init_image_not_str)
  from assms(1) have "tr0 = []" by (simp add: validated_workflow_trace)
  with h posts_after_init [OF assms(1) h] show ?thesis by simp
qed

theorem non_string_init_image_ignored_witness:
  "filter is_fs_write (snd (handler (Suc 0) slow_engine
       (event_of [(''workflow'', JObj image_nodes), (''init_image'', JInt 5)]))) = [] \<and>
   filter is_http_post (snd (handler (Suc 0) slow_engine
       (event_of [(''workflow'', JObj image_nodes), (''init_image'', JInt 5)]))) =
     [submission (JObj image_nodes)]"
proof -
  have v: "validated_workflow slow_engine
       (event_of [(''workflow'', JObj image_nodes), (''init_image'', JInt 5)]) [] =
     (Next (JObj [(''workflow'', JObj image_nodes), (''init_image'', JInt 5)], JObj image_nodes), [])"
    by (rule with_init_image_validated) (simp add: slow_engine_def world_parts)
  have i: "map_of [(''workflow'', JObj image_nodes), (''init_image'', JInt 5)] ''init_image'' =
     Some (JInt 5)" by simp
  from non_string_init_image_ignored [OF v i] show ?thesis by simp
qed

text \<open>
C7. When the validated payload has no \<^verbatim>\<open>init_image\<close>, or has a string
  \<^verbatim>\<open>init_image\<close> that is saved while no node of the workflow passes the test of line
  100, the invocation makes exactly one submission and its payload is
  \<^verbatim>\<open>{'prompt': workflow}\<close> with the workflow of the input, unchanged.
\<close>

theorem unpatched_workflow_submitted:
  assumes "validated_workflow env event [] = (Next (JObj entries, workflow), tr0)"
    and "map_of entries ''init_image'' = None \<or>
         (map_of entries ''init_image'' = Some (JStr base64_str) \<and> saves env base64_str \<and>
          no_loadimage workflow)"
  shows "filter is_http_post (snd (handler fuel env event)) = [submission workflow]"
proof -
  from assms(2) have "\<exists>tr1. handle_init_image env (JObj entries) workflow tr0 = (Next workflow, tr1)"
  proof
    assume "map_of entries ''init_image'' = None"
    then show ?thesis by (simp add: handle_init_image_absent)
  next
    assume b: "map_of entries ''init_image'' = Some (JStr base64_str) \<and> saves env base64_str \<and>
          no_loadimage workflow"
    then obtain nodes where nodes: "workflow = JObj nodes"
      "list_all (\<lambda>entry. is_loadimage (snd entry) = Inr False) nodes"
      by (auto simp: no_loadimage_def split: json.splits)
    from handle_init_image_str [OF _ _ patch_loop_no_match [OF nodes(2)], of entries base64_str env tr0] b
    show ?thesis by (auto simp: nodes(1))
  qed
  then obtain tr1 where "handle_init_image env (JObj entries) workflow tr0 = (Next workflow, tr1)" ..
  from posts_after_init(1) [OF assms(1) this] show ?thesis .
qed

theorem unpatched_workflow_submitted_witness:
  "filter is_http_post (snd (handler (Suc 0) slow_engine (event_of [(''workflow'', plain_workflow)]))) =
     [submission plain_workflow] \<and>
   filter is_http_post (snd (handler (Suc 0) slow_engine
       (event_of [(''workflow'', plain_workflow), (''init_image'', JStr ''QUJD'')]))) =
     [submission plain_workflow]"
proof -
  have v1: "validated_workflow slow_engine (event_of [(''workflow'', plain_workflow)]) [] =
     (Next (JObj [(''workflow'', plain_workflow)], plain_workflow), [])"
    by (rule plain_event_validated) (simp add: slow_engine_def world_parts)
  have a1: "map_of [(''workflow'', plain_workflow)] ''init_image'' = None" by simp
  have v2: "validated_workflow slow_engine
       (event_of [(''workflow'', plain_workflow), (''init_image'', JStr ''QUJD'')]) [] =
     (Next (JObj [(''workflow'', plain_workflow), (''init_image'', JStr ''QUJD'')], plain_workflow), [])"
    by (rule with_init_image_validated) (simp add: slow_engine_def world_parts)
  have a2: "map_of [(''workflow'', plain_workflow), (''init_image'', JStr ''QUJD'')] ''init_image'' =
       Some (JStr ''QUJD'') \<and> saves slow_engine ''QUJD'' \<and> no_loadimage plain_workflow"
    by (simp add: slow_engine_def world_saves no_loadimage_def plain_workflow_def example_nodes)
  from unpatched_workflow_submitted [OF v1 disjI1 [OF a1]]
    unpatched_workflow_submitted [OF v2 disjI2 [OF a2]]
  show ?thesis by simp
qed

lemma char_of_eq_small: "n < 256 \<Longrightarrow> (char_of (n::nat) = d) = (n = of_char d)"
proof
  assume n: "n < 256" and "char_of n = d"
  then have "of_char (char_of n) = (of_char d :: nat)" by simp
  with n show "n = of_char d" by (simp add: of_char_of)
next
  assume "n = of_char d"
  then show "char_of n = d" by simp
qed

lemma lower_char_eq:
  "(lower_char c = d) =
     (if (65 \<le> (of_char c :: nat) \<and> (of_char c :: nat) \<le> 90) \<or>
         (192 \<le> (of_char c :: nat) \<and> (of_char c :: nat) \<le> 222 \<and> (of_char c :: nat) \<noteq> 215)
      then (of_char c :: nat) + 32 = of_char d else (of_char c :: nat) = of_char d)"
proof (cases "(65 \<le> (of_char c :: nat) \<and> (of_char c :: nat) \<le> 90) \<or>
         (192 \<le> (of_char c :: nat) \<and> (of_char c :: nat) \<le> 222 \<and> (of_char c :: nat) \<noteq> 215)")
  case True
  then have "(of_char c :: nat) + 32 < 256" by arith
  from char_of_eq_small [OF this, of d] True show ?thesis
    by (simp add: lower_char_def Let_def)
next
  case False
  then show ?thesis by (auto simp: lower_char_def Let_def)
qed

lemma lower_char_letter:
  assumes "(of_char lo :: nat) = of_char up + 32" and "65 \<le> (of_char up :: nat)"
    and "(of_char up :: nat) \<le> 90"
  shows "(lower_char c = lo) = (c = lo \<or> c = up)"
proof -
  have "(c = lo) = ((of_char c :: nat) = of_char lo)" "(c = up) = ((of_char c :: nat) = of_char up)"
    by (simp_all add: of_char_eq_iff)
  with assms show ?thesis unfolding lower_char_eq by (simp, arith)
qed

lemma lower_char_letters:
  "(lower_char c = CHR ''l'') = (c = CHR ''l'' \<or> c = CHR ''L'')"
  "(lower_char c = CHR ''o'') = (c = CHR ''o'' \<or> c = CHR ''O'')"
  "(lower_char c = CHR ''a'') = (c = CHR ''a'' \<or> c = CHR ''A'')"
  "(lower_char c = CHR ''d'') = (c = CHR ''d'' \<or> c = CHR ''D'')"
  "(lower_char c = CHR ''i'') = (c = CHR ''i'' \<or> c = CHR ''I'')"
  "(lower_char c = CHR ''m'') = (c = CHR ''m'' \<or> c = CHR ''M'')"
  "(lower_char c = CHR ''g'') = (c = CHR ''g'' \<or> c = CHR ''G'')"
  "(lower_char c = CHR ''e'') = (c = CHR ''e'' \<or> c = CHR ''E'')"
  by (rule lower_char_letter; simp)+

lemma startswith_all2:
  "startswith (map f s) p =
     (length p \<le> length s \<and> list_all2 (\<lambda>c d. f c = d) (take (length p) s) p)"
proof (induction s arbitrary: p)
  case Nil
  then show ?case by (cases p) simp_all
next
  case (Cons c s)
  then show ?case by (cases p) auto
qed

lemma loadimage_letters:
  "list_all2 (\<lambda>c d. lower_char c = d) xs ''loadimage'' =
   list_all2 (\<lambda>c lu. c = fst lu \<or> c = snd lu) xs (zip ''loadimage'' ''LOADIMAGE'')"
  by (simp add: list_all2_Cons2 lower_char_letters)

lemma is_loadimage_class:
  assumes "is_node node"
  shows "is_loadimage node = Inr (loadimage_class node)"
proof -
  from is_node_shape [OF assms] obtain kvs s where
    "node = JObj kvs" "map_of kvs ''class_type'' = Some (JStr s)" by blast
  moreover have nine: "length ''loadimage'' = 9" by simp
  ultimately show ?thesis
    using startswith_all2 [of lower_char s "''loadimage''", unfolded nine]
      loadimage_letters [of "take 9 s"]
    by (simp add: is_loadimage_def loadimage_class_def)
qed

lemma dict_set_lookup: "map_of (dict_set kvs k v) k = Some v"
  by (induction kvs) auto

lemma dict_set_other: "k' \<noteq> k \<Longrightarrow> map_of (dict_set kvs k v) k' = map_of kvs k'"
  by (induction kvs) auto

lemma dict_set_keys:
  "map fst (dict_set kvs k v) = (if k \<in> set (map fst kvs) then map fst kvs else map fst kvs @ [k])"
proof (induction kvs)
  case Nil
  show ?case by simp
next
  case (Cons kv kvs)
  obtain k' v' where kv: "kv = (k', v')" by (cases kv)
  show ?case
  proof (cases "k' = k")
    case True
    then show ?thesis by (simp add: kv)
  next
    case False
    with Cons show ?thesis by (simp add: kv)
  qed
qed


lemma save_init_image_decoded:
  assumes "saves env base64_str"
  shows "\<exists>data. env_b64decode env base64_str = Inr data \<and>
     save_init_image env base64_str tr =
     (Next init_image_path,
      tr @ [MakeDirs input_dir, OpenWrite init_image_path, WriteFile init_image_path data])"
  using assms
  by (auto simp: saves_def save_init_image_def input_dir_def init_image_path_def prog_defs
      Let_def split: sum.splits)

lemma handle_init_image_decoded:
  assumes "map_of entries ''init_image'' = Some (JStr base64_str)"
    and "saves env base64_str"
    and "patch_loop init_image_path nodes = Inr nodes'"
  shows "\<exists>data. env_b64decode env base64_str = Inr data \<and>
     handle_init_image env (JObj entries) (JObj nodes) tr =
     (Next (JObj nodes'),
      tr @ [MakeDirs input_dir, OpenWrite init_image_path, WriteFile init_image_path data])"
proof -
  from save_init_image_decoded [OF assms(2)] obtain data where
    "env_b64decode env base64_str = Inr data"
    "save_init_image env base64_str tr =
     (Next init_image_path,
      tr @ [MakeDirs input_dir, OpenWrite init_image_path, WriteFile init_image_path data])"
    by blast
  then show ?thesis
    using init_image_lookup [OF assms(1)] assms(3)
    by (intro exI [of _ data]) (simp add: handle_init_image_def prog_defs)
qed

lemma nodes_loadimage_class:
  assumes "list_all (\<lambda>entry. is_node (snd entry)) nodes"
  shows "list_ex (\<lambda>entry. loadimage_class (snd entry)) nodes =
         list_ex (\<lambda>entry. is_loadimage (snd entry) = Inr True) nodes"
    and "j < length nodes \<Longrightarrow>
         (is_loadimage (snd (nodes ! j)) = Inr b) = (loadimage_class (snd (nodes ! j)) = b)"
proof -
  have *: "is_loadimage (snd entry) = Inr (loadimage_class (snd entry))" if "entry \<in> set nodes" for entry
    using assms that by (auto simp: list_all_iff intro: is_loadimage_class)
  then show "list_ex (\<lambda>entry. loadimage_class (snd entry)) nodes =
         list_ex (\<lambda>entry. is_loadimage (snd entry) = Inr True) nodes"
    by (auto simp: list_ex_iff)
  show "(is_loadimage (snd (nodes ! j)) = Inr b) = (loadimage_class (snd (nodes ! j)) = b)"
    if "j < length nodes"
    using * [of "nodes ! j"] that by auto
qed

lemma with_image_fields:
  assumes "map_of kvs ''inputs'' = Some (JObj ins)"
  shows "\<exists>kvs' ins'. with_image kvs ins image_path = JObj kvs' \<and>
     map fst kvs' = map fst kvs \<and>
     (\<forall>k. k \<noteq> ''inputs'' \<longrightarrow> map_of kvs' k = map_of kvs k) \<and>
     map_of kvs' ''inputs'' = Some (JObj ins') \<and>
     map_of ins' ''image'' = Some (JStr image_path) \<and>
     (\<forall>k. k \<noteq> ''image'' \<longrightarrow> map_of ins' k = map_of ins k) \<and>
     map fst ins' =
       (if ''image'' \<in> set (map fst ins) then map fst ins else map fst ins @ [''image''])"
proof -
  from assms have "''inputs'' \<in> set (map fst kvs)"
    by (metis map_of_eq_None_iff option.distinct(1) set_map)
  then have "map fst (dict_set kvs ''inputs'' (JObj (dict_set ins ''image'' (JStr image_path)))) =
      map fst kvs" by (simp only: dict_set_keys if_True)
  then show ?thesis
    unfolding with_image_def
    by (intro exI [of _ "dict_set kvs ''inputs'' (JObj (dict_set ins ''image'' (JStr image_path)))"]
          exI [of _ "dict_set ins ''image'' (JStr image_path)"])
       (simp add: dict_set_lookup dict_set_other dict_set_keys)
qed

lemma written_path: "init_image_path = ''/runpod-volume/ComfyUI/input/init.png''"
  by (simp add: init_image_path_def input_dir_def VOLUME_MOUNT_PATH_def)

lemma submission_request:
  "submission workflow = HttpPost ''http://127.0.0.1:3000/prompt'' (JObj [(''prompt'', workflow)])"
  by (simp add: submission_def prompt_url_def BASE_URI_def)

lemma preview_node: "is_loadimage preview = Inr False" "is_node preview"
  by code_simp+

text \<open>
  C4. When the validated payload holds a workflow whose nodes are nodes of the data model,
  at least one of which has a \<^verbatim>\<open>class_type\<close> that starts with \<^verbatim>\<open>loadimage\<close> in any
  mix of cases, and a string \<^verbatim>\<open>init_image\<close> that is saved, then there is a position
  \<open>i\<close> in the workflow such that: the node at \<open>i\<close> has such a \<^verbatim>\<open>class_type\<close> and no
  node before it has (it is the first one); the invocation makes exactly one submission, to
  \<^verbatim>\<open>http://127.0.0.1:3000/prompt\<close>, whose workflow has as many nodes as the input, the
  same entry at every position other than \<open>i\<close>, and at \<open>i\<close> the same node id with a node
  that has the same keys in the same order and the same value under every key but
  \<^verbatim>\<open>inputs\<close>; the \<^verbatim>\<open>inputs\<close> of that node have
  \<^verbatim>\<open>/runpod-volume/ComfyUI/input/init.png\<close> under \<^verbatim>\<open>image\<close>, the same value as before
  under every other key, and the same keys in the same order, with \<^verbatim>\<open>image\<close> added last
  if it was not there; and that path is the one of a file written during the invocation with
  the decoded init image.
\<close>

theorem first_loadimage_patched:
  assumes "validated_workflow env event [] = (Next (JObj entries, JObj nodes), tr0)"
    and "map_of entries ''init_image'' = Some (JStr base64_str)"
    and "saves env base64_str"
    and "list_all (\<lambda>entry. is_node (snd entry)) nodes"
    and "list_ex (\<lambda>entry. loadimage_class (snd entry)) nodes"
  shows "\<exists>i node_id kvs ins nodes' kvs' ins' data.
       i < length nodes \<and> nodes ! i = (node_id, JObj kvs) \<and>
       map_of kvs ''inputs'' = Some (JObj ins) \<and>
       loadimage_class (JObj kvs) \<and>
       (\<forall>j<i. \<not> loadimage_class (snd (nodes ! j))) \<and>
       filter is_http_post (snd (handler fuel env event)) =
         [HttpPost ''http://127.0.0.1:3000/prompt'' (JObj [(''prompt'', JObj nodes')])] \<and>
       length nodes' = length nodes \<and>
       (\<forall>j<length nodes. j \<noteq> i \<longrightarrow> nodes' ! j = nodes ! j) \<and>
       nodes' ! i = (node_id, JObj kvs') \<and>
       map fst kvs' = map fst kvs \<and>
       (\<forall>k. k \<noteq> ''inputs'' \<longrightarrow> map_of kvs' k = map_of kvs k) \<and>
       map_of kvs' ''inputs'' = Some (JObj ins') \<and>
       map_of ins' ''image'' = Some (JStr ''/runpod-volume/ComfyUI/input/init.png'') \<and>
       (\<forall>k. k \<noteq> ''image'' \<longrightarrow> map_of ins' k = map_of ins k) \<and>
       map fst ins' =
         (if ''image'' \<in> set (map fst ins) then map fst ins else map fst ins @ [''image'']) \<and>
       env_b64decode env base64_str = Inr data \<and>
       WriteFile ''/runpod-volume/ComfyUI/input/init.png'' data \<in> set (snd (handler fuel env event))"
proof -
  from assms(5) have "list_ex (\<lambda>entry. is_loadimage (snd entry) = Inr True) nodes"
    by (simp add: nodes_loadimage_class(1) [OF assms(4)])
  from patch_loop_first [OF assms(4) this, of init_image_path]
  obtain i kvs ins where i: "i < length nodes" "snd (nodes ! i) = JObj kvs"
      "map_of kvs ''inputs'' = Some (JObj ins)" "is_loadimage (snd (nodes ! i)) = Inr True"
      "\<forall>j<i. is_loadimage (snd (nodes ! j)) = Inr False"
      "patch_loop init_image_path nodes =
         Inr (nodes[i := (fst (nodes ! i), with_image kvs ins init_image_path)])"
    by blast
  let ?nodes' = "nodes[i := (fst (nodes ! i), with_image kvs ins init_image_path)]"
  from i(1,2) have at: "nodes ! i = (fst (nodes ! i), JObj kvs)" by (cases "nodes ! i") simp
  from i(1,2,4) have first: "loadimage_class (JObj kvs)"
    using nodes_loadimage_class(2) [OF assms(4), of i True] by simp
  have before: "\<forall>j<i. \<not> loadimage_class (snd (nodes ! j))"
  proof (intro allI impI)
    fix j assume "j < i"
    with i(1,5) show "\<not> loadimage_class (snd (nodes ! j))"
      using nodes_loadimage_class(2) [OF assms(4), of j False] by simp
  qed
  from with_image_fields [OF i(3), of init_image_path] obtain kvs' ins' where
    w: "with_image kvs ins init_image_path = JObj kvs'"
      "map fst kvs' = map fst kvs"
      "\<forall>k. k \<noteq> ''inputs'' \<longrightarrow> map_of kvs' k = map_of kvs k"
      "map_of kvs' ''inputs'' = Some (JObj ins')"
      "map_of ins' ''image'' = Some (JStr init_image_path)"
      "\<forall>k. k \<noteq> ''image'' \<longrightarrow> map_of ins' k = map_of ins k"
      "map fst ins' =
         (if ''image'' \<in> set (map fst ins) then map fst ins else map fst ins @ [''image''])"
    by blast
  from handle_init_image_decoded [OF assms(2,3) i(6), of tr0] obtain data where
    d: "env_b64decode env base64_str = Inr data" and
    h: "handle_init_image env (JObj entries) (JObj nodes) tr0 =
     (Next (JObj ?nodes'),
      tr0 @ [MakeDirs input_dir, OpenWrite init_image_path, WriteFile init_image_path data])"
    by blast
  from handler_trace_after_init [OF assms(1) h, of fuel]
  have written: "WriteFile ''/runpod-volume/ComfyUI/input/init.png'' data \<in>
      set (snd (handler fuel env event))"
    by (auto simp: written_path)
  have posts: "filter is_http_post (snd (handler fuel env event)) =
      [HttpPost ''http://127.0.0.1:3000/prompt'' (JObj [(''prompt'', JObj ?nodes')])]"
    using posts_after_init(1) [OF assms(1) h, of fuel] by (simp add: submission_request)
  have len: "length ?nodes' = length nodes" by simp
  have others: "\<forall>j<length nodes. j \<noteq> i \<longrightarrow> ?nodes' ! j = nodes ! j" by simp
  have patched: "?nodes' ! i = (fst (nodes ! i), JObj kvs')" using i(1) w(1) by simp
  from i(1) at i(3) first before posts len others patched w(2,3,4) w(5) [unfolded written_path]
    w(6,7) d written
  show ?thesis by blast
qed

theorem first_loadimage_patched_witness:
  "(\<exists>i node_id kvs ins nodes' kvs' ins' data.
       i < length mixed_nodes \<and> mixed_nodes ! i = (node_id, JObj kvs) \<and>
       map_of kvs ''inputs'' = Some (JObj ins) \<and>
       loadimage_class (JObj kvs) \<and>
       (\<forall>j<i. \<not> loadimage_class (snd (mixed_nodes ! j))) \<and>
       filter is_http_post (snd (handler (Suc 0) slow_engine
           (event_of [(''workflow'', JObj mixed_nodes), (''init_image'', JStr ''QUJD'')]))) =
         [HttpPost ''http://127.0.0.1:3000/prompt'' (JObj [(''prompt'', JObj nodes')])] \<and>
       length nodes' = length mixed_nodes \<and>
       (\<forall>j<length mixed_nodes. j \<noteq> i \<longrightarrow> nodes' ! j = mixed_nodes ! j) \<and>
       nodes' ! i = (node_id, JObj kvs') \<and>
       map fst kvs' = map fst kvs \<and>
       (\<forall>k. k \<noteq> ''inputs'' \<longrightarrow> map_of kvs' k = map_of kvs k) \<and>
       map_of kvs' ''inputs'' = Some (JObj ins') \<and>
       map_of ins' ''image'' = Some (JStr ''/runpod-volume/ComfyUI/input/init.png'') \<and>
       (\<forall>k. k \<noteq> ''image'' \<longrightarrow> map_of ins' k = map_of ins k) \<and>
       map fst ins' =
         (if ''image'' \<in> set (map fst ins) then map fst ins else map fst ins @ [''image'']) \<and>
       env_b64decode slow_engine ''QUJD'' = Inr data \<and>
       WriteFile ''/runpod-volume/ComfyUI/input/init.png'' data \<in> set (snd (handler (Suc 0) slow_engine
           (event_of [(''workflow'', JObj mixed_nodes), (''init_image'', JStr ''QUJD'')])))) \<and>
   filter is_http_post (snd (handler (Suc 0) slow_engine
       (event_of [(''workflow'', JObj mixed_nodes), (''init_image'', JStr ''QUJD'')]))) =
     [HttpPost ''http://127.0.0.1:3000/prompt''
        (JObj [(''prompt'', JObj
           [(''1'', JObj [(''class_type'', JStr ''KSampler''), (''inputs'', JObj [(''seed'', JInt 7)])]),
            (''2'', JObj [(''class_type'', JStr ''PreviewLoadImage''),
                          (''inputs'', JObj [(''image'', JStr ''keep.png'')])]),
            (''3'', JObj [(''class_type'', JStr ''LoadImage''),
                          (''inputs'', JObj [(''image'', JStr ''/runpod-volume/ComfyUI/input/init.png'')])]),
            (''4'', JObj [(''class_type'', JStr ''LOADIMAGEMASK''), (''inputs'', JObj [])])])])]"
proof
  have v: "validated_workflow slow_engine
       (event_of [(''workflow'', JObj mixed_nodes), (''init_image'', JStr ''QUJD'')]) [] =
     (Next (JObj [(''workflow'', JObj mixed_nodes), (''init_image'', JStr ''QUJD'')], JObj mixed_nodes), [])"
    by (rule with_init_image_validated) (simp add: slow_engine_def world_parts)
  have i: "map_of [(''workflow'', JObj mixed_nodes), (''init_image'', JStr ''QUJD'')] ''init_image'' =
     Some (JStr ''QUJD'')" by simp
  have s: "saves slow_engine ''QUJD''" by (simp add: slow_engine_def world_saves)
  have n: "list_all (\<lambda>entry. is_node (snd entry)) mixed_nodes"
    by (simp add: mixed_nodes_def example_nodes_shape preview_node)
  have e: "list_ex (\<lambda>entry. loadimage_class (snd entry)) mixed_nodes"
    by (simp add: mixed_nodes_def loadimage_class_def loader_def)
  show "\<exists>i node_id kvs ins nodes' kvs' ins' data.
       i < length mixed_nodes \<and> mixed_nodes ! i = (node_id, JObj kvs) \<and>
       map_of kvs ''inputs'' = Some (JObj ins) \<and>
       loadimage_class (JObj kvs) \<and>
       (\<forall>j<i. \<not> loadimage_class (snd (mixed_nodes ! j))) \<and>
       filter is_http_post (snd (handler (Suc 0) slow_engine
           (event_of [(''workflow'', JObj mixed_nodes), (''init_image'', JStr ''QUJD'')]))) =
         [HttpPost ''http://127.0.0.1:3000/prompt'' (JObj [(''prompt'', JObj nodes')])] \<and>
       length nodes' = length mixed_nodes \<and>
       (\<forall>j<length mixed_nodes. j \<noteq> i \<longrightarrow> nodes' ! j = mixed_nodes ! j) \<and>
       nodes' ! i = (node_id, JObj kvs') \<and>
       map fst kvs' = map fst kvs \<and>
       (\<forall>k. k \<noteq> ''inputs'' \<longrightarrow> map_of kvs' k = map_of kvs k) \<and>
       map_of kvs' ''inputs'' = Some (JObj ins') \<and>
       map_of ins' ''image'' = Some (JStr ''/runpod-volume/ComfyUI/input/init.png'') \<and>
       (\<forall>k. k \<noteq> ''image'' \<longrightarrow> map_of ins' k = map_of ins k) \<and>
       map fst ins' =
         (if ''image'' \<in> set (map fst ins) then map fst ins else map fst ins @ [''image'']) \<and>
       env_b64decode slow_engine ''QUJD'' = Inr data \<and>
       WriteFile ''/runpod-volume/ComfyUI/input/init.png'' data \<in> set (snd (handler (Suc 0) slow_engine
           (event_of [(''workflow'', JObj mixed_nodes), (''init_image'', JStr ''QUJD'')])))"
    by (rule first_loadimage_patched [OF v i s n e])
next
  show "filter is_http_post (snd (handler (Suc 0) slow_engine
       (event_of [(''workflow'', JObj mixed_nodes), (''init_image'', JStr ''QUJD'')]))) =
     [HttpPost ''http://127.0.0.1:3000/prompt''
        (JObj [(''prompt'', JObj
           [(''1'', JObj [(''class_type'', JStr ''KSampler''), (''inputs'', JObj [(''seed'', JInt 7)])]),
            (''2'', JObj [(''class_type'', JStr ''PreviewLoadImage''),
                          (''inputs'', JObj [(''image'', JStr ''keep.png'')])]),
            (''3'', JObj [(''class_type'', JStr ''LoadImage''),
                          (''inputs'', JObj [(''image'', JStr ''/runpod-volume/ComfyUI/input/init.png'')])]),
            (''4'', JObj [(''class_type'', JStr ''LOADIMAGEMASK''), (''inputs'', JObj [])])])])]"
    by (simp add: handler_defs prog_defs world_defs slow_engine_def mixed_nodes_def example_nodes
          preview_node loader_patched with_image_def poll_history.simps)
       (simp add: ksampler_def preview_def mask_loader_def)
qed

subsection \<open>What the handler can return\<close>

lemma validated_workflow_return:
  "validated_workflow env event tr = (Return v, tr') \<Longrightarrow> is_error_payload v"
  by (auto simp: validated_workflow_def prog_defs split: sum.splits if_splits)

lemma save_init_image_not_return:
  "save_init_image env base64_str tr \<noteq> (Return v, tr')"
  by (auto simp: save_init_image_def prog_defs Let_def split: sum.splits option.splits)

lemma handle_init_image_not_return:
  "handle_init_image env payload workflow tr \<noteq> (Return v, tr')"
proof
  assume a: "handle_init_image env payload workflow tr = (Return v, tr')"
  then obtain init_image where
    "py_getitem payload (JStr ''init_image'') = Inr init_image"
    "(case init_image of
         JStr base64_str \<Rightarrow>
           and_then (save_init_image env base64_str) (\<lambda>image_path.
           and_then (lift (py_items workflow)) (\<lambda>items.
           and_then (lift (patch_loop image_path items)) (\<lambda>items'.
           next_with (JObj items'))))
       | _ \<Rightarrow> next_with workflow) tr = (Return v, tr')"
    unfolding handle_init_image_def
    by (auto simp: lift_def next_with_def dest!: and_then_Return split: sum.splits if_splits)
  then show False
    by (cases init_image)
       (auto simp: lift_def next_with_def save_init_image_not_return dest!: and_then_Return
          split: sum.splits)
qed

lemma queue_workflow_return:
  assumes "queue_workflow env workflow tr = (Return v, tr')"
  shows "tr' = tr @ [submission workflow] \<and>
     (is_error_payload v \<or>
      (\<exists>r. env_post env prompt_url (JObj [(''prompt'', workflow)]) = Inr r \<and>
           status_code r \<noteq> 200 \<and> json_body r = Inr v))"
  using assms
  by (auto simp: queue_workflow_def send_post_request_def prog_defs submission_def prompt_url_def
      Let_def split: sum.splits if_splits)

lemma poll_history_not_return:
  "poll_history fuel env prompt_id k tr \<noteq> (Return v, tr')"
proof (induction fuel arbitrary: k tr)
  case 0
  show ?case by (simp add: out_of_fuel_def)
next
  case (Suc fuel)
  show ?case
    using Suc [of "Suc k"]
    by (auto simp: send_get_request_def prog_defs Let_def split: sum.splits if_splits)
qed

lemma read_images_strings:
  "read_images env names tr = (Next images, tr') \<Longrightarrow> list_all is_str images"
proof (induction names arbitrary: tr images tr')
  case Nil
  then show ?case by (simp add: next_with_def)
next
  case (Cons name names)
  from Cons.prems show ?case
    by (auto simp: prog_defs split: sum.splits prod.splits flow.splits dest: Cons.IH)
qed

lemma read_images_not_return:
  "read_images env names tr \<noteq> (Return v, tr')"
proof (induction names arbitrary: tr)
  case Nil
  show ?case by (simp add: next_with_def)
next
  case (Cons name names)
  show ?case
    using Cons
    by (auto simp: prog_defs split: sum.splits prod.splits flow.splits)
qed

lemma collect_images_return:
  "collect_images env prompt_id resp_json tr = (Return v, tr') \<Longrightarrow> is_success_payload v"
  by (auto simp: collect_images_def prog_defs read_images_not_return
      split: sum.splits if_splits prod.splits flow.splits dest: read_images_strings)

lemma collect_images_not_next:
  "collect_images env prompt_id resp_json tr \<noteq> (Next u, tr')"
  by (auto simp: collect_images_def prog_defs split: sum.splits if_splits prod.splits flow.splits)

lemma handler_try_not_next: "handler_try fuel env event [] \<noteq> (Next u, tr)"
proof
  assume "handler_try fuel env event [] = (Next u, tr)"
  then show False
    unfolding handler_try_def
    by (auto dest!: and_then_Next simp: collect_images_not_next)
qed

lemma handler_try_return:
  assumes "handler_try fuel env event [] = (Return v, tr)"
  shows "is_success_payload v \<or> is_error_payload v \<or>
     (\<exists>workflow r. submission workflow \<in> set tr \<and>
        env_post env prompt_url (JObj [(''prompt'', workflow)]) = Inr r \<and>
        status_code r \<noteq> 200 \<and> json_body r = Inr v)"
proof -
  from assms [unfolded handler_try_def, THEN and_then_Return] show ?thesis
  proof (elim disjE exE conjE)
    assume "validated_workflow env event [] = (Return v, tr)"
    then show ?thesis by (simp add: validated_workflow_return)
  next
    fix x tr0
    assume rest: "(case x of (payload, workflow) \<Rightarrow>
        and_then (handle_init_image env payload workflow) (\<lambda>workflow'.
        and_then (queue_workflow env workflow') (\<lambda>prompt_id.
        and_then (poll_history fuel env prompt_id 0) (\<lambda>resp_json.
        collect_images env prompt_id resp_json)))) tr0 = (Return v, tr)"
    obtain payload workflow where x: "x = (payload, workflow)" by (cases x)
    from rest x have "and_then (handle_init_image env payload workflow) (\<lambda>workflow'.
        and_then (queue_workflow env workflow') (\<lambda>prompt_id.
        and_then (poll_history fuel env prompt_id 0) (\<lambda>resp_json.
        collect_images env prompt_id resp_json))) tr0 = (Return v, tr)" by simp
    from and_then_Return [OF this] handle_init_image_not_return obtain workflow' tr1 where
      q: "and_then (queue_workflow env workflow') (\<lambda>prompt_id.
        and_then (poll_history fuel env prompt_id 0) (\<lambda>resp_json.
        collect_images env prompt_id resp_json)) tr1 = (Return v, tr)"
      by blast
    from and_then_Return [OF q] show ?thesis
    proof (elim disjE exE conjE)
      assume "queue_workflow env workflow' tr1 = (Return v, tr)"
      from queue_workflow_return [OF this] show ?thesis by auto
    next
      fix prompt_id tr2
      assume "and_then (poll_history fuel env prompt_id 0) (\<lambda>resp_json.
        collect_images env prompt_id resp_json) tr2 = (Return v, tr)"
      from and_then_Return [OF this] show ?thesis
        by (auto simp: poll_history_not_return dest: collect_images_return)
    qed
  qed
qed

subsection \<open>When the handler has not returned\<close>

lemma finishes_and_then:
  assumes "finishes m" and "\<And>x. finishes (f x)"
  shows "finishes (and_then m f)"
  using assms unfolding finishes_def
  by (auto simp: and_then_def split: prod.splits flow.splits) (metis fst_conv)+

lemma finishes_simple:
  "finishes (lift r)" "finishes (check c)" "finishes (next_with x)" "finishes (return_with v)"
  "finishes (raise e)" "finishes (emit ev)"
  by (auto simp: finishes_def lift_def check_def next_with_def return_with_def raise_def emit_def
      split: sum.splits option.splits)

lemma finishes_if: "finishes a \<Longrightarrow> finishes b \<Longrightarrow> finishes (if c then a else b)"
  by simp

lemma finishes_validated_workflow: "finishes (validated_workflow env event)"
  unfolding validated_workflow_def
  by (intro finishes_and_then finishes_if finishes_simple)

lemma finishes_handle_init_image: "finishes (handle_init_image env payload workflow)"
proof -
  have *: "finishes
     (case init_image of
         JStr base64_str \<Rightarrow>
           and_then (save_init_image env base64_str) (\<lambda>image_path.
           and_then (lift (py_items workflow)) (\<lambda>items.
           and_then (lift (patch_loop image_path items)) (\<lambda>items'.
           next_with (JObj items'))))
       | _ \<Rightarrow> next_with workflow)" for init_image
    unfolding save_init_image_def Let_def
    by (cases init_image) (auto intro!: finishes_and_then finishes_simple)
  show ?thesis
    unfolding handle_init_image_def
    by (intro finishes_and_then finishes_if finishes_simple *)
qed

lemma finishes_queue_workflow: "finishes (queue_workflow env workflow)"
  unfolding queue_workflow_def send_post_request_def Let_def
  by (intro finishes_and_then finishes_if finishes_simple)

lemma finishes_read_images: "finishes (read_images env names)"
proof (induction names)
  case Nil
  show ?case by (simp add: finishes_simple)
next
  case (Cons name names)
  show ?case
    unfolding read_images.simps
    by (intro finishes_and_then finishes_simple Cons)
qed

lemma finishes_collect_images: "finishes (collect_images env prompt_id resp_json)"
  unfolding collect_images_def
  by (intro finishes_and_then finishes_if finishes_simple finishes_read_images)

lemma and_then_Running:
  "and_then m f tr = (Running, tr') \<Longrightarrow>
   m tr = (Running, tr') \<or> (\<exists>x tr1. m tr = (Next x, tr1) \<and> f x tr1 = (Running, tr'))"
  by (auto simp: and_then_def split: prod.splits flow.splits)

lemma not_Running: "finishes m \<Longrightarrow> m tr \<noteq> (Running, tr')"
  unfolding finishes_def by (metis fst_conv)

lemma queue_workflow_trace:
  "queue_workflow env workflow tr = (out, tr') \<Longrightarrow> tr' = tr @ [submission workflow]"
  by (auto simp: queue_workflow_def send_post_request_def prog_defs submission_def prompt_url_def
      Let_def split: sum.splits if_splits)

lemma poll_running_requests:
  "poll_history fuel env prompt_id k tr = (Running, tr') \<Longrightarrow>
   filter is_http_get tr' = filter is_http_get tr @ replicate fuel (HttpGet (history_url prompt_id))"
proof (induction fuel arbitrary: k tr)
  case 0
  then show ?case by (simp add: out_of_fuel_def)
next
  case (Suc fuel)
  from Suc.prems have "poll_history fuel env prompt_id (Suc k)
      (tr @ [HttpGet (history_url prompt_id), Sleep 200]) = (Running, tr')"
    by (auto simp: send_get_request_def prog_defs history_url_def Let_def
        split: sum.splits if_splits)
  from Suc.IH [OF this] show ?case by (simp add: replicate_append_same)
qed

lemma handler_try_running:
  assumes "handler_try fuel env event [] = (Running, tr)"
  shows "length (filter is_http_get tr) = fuel"
proof -
  from assms [unfolded handler_try_def, THEN and_then_Running]
    not_Running [OF finishes_validated_workflow]
  obtain x tr0 where v: "validated_workflow env event [] = (Next x, tr0)"
    and rest: "(case x of (payload, workflow) \<Rightarrow>
        and_then (handle_init_image env payload workflow) (\<lambda>workflow'.
        and_then (queue_workflow env workflow') (\<lambda>prompt_id.
        and_then (poll_history fuel env prompt_id 0) (\<lambda>resp_json.
        collect_images env prompt_id resp_json)))) tr0 = (Running, tr)"
    by blast
  obtain payload workflow where x: "x = (payload, workflow)" by (cases x)
  from rest x have "and_then (handle_init_image env payload workflow) (\<lambda>workflow'.
        and_then (queue_workflow env workflow') (\<lambda>prompt_id.
        and_then (poll_history fuel env prompt_id 0) (\<lambda>resp_json.
        collect_images env prompt_id resp_json))) tr0 = (Running, tr)" by simp
  from and_then_Running [OF this] not_Running [OF finishes_handle_init_image]
  obtain workflow' tr1 where h: "handle_init_image env payload workflow tr0 = (Next workflow', tr1)"
    and q: "and_then (queue_workflow env workflow') (\<lambda>prompt_id.
        and_then (poll_history fuel env prompt_id 0) (\<lambda>resp_json.
        collect_images env prompt_id resp_json)) tr1 = (Running, tr)"
    by blast
  from and_then_Running [OF q] not_Running [OF finishes_queue_workflow]
  obtain prompt_id tr2 where qn: "queue_workflow env workflow' tr1 = (Next prompt_id, tr2)"
    and p: "and_then (poll_history fuel env prompt_id 0) (\<lambda>resp_json.
        collect_images env prompt_id resp_json) tr2 = (Running, tr)"
    by blast
  from and_then_Running [OF p] not_Running [OF finishes_collect_images]
  have "poll_history fuel env prompt_id 0 tr2 = (Running, tr)" by blast
  from poll_running_requests [OF this]
  have "filter is_http_get tr =
      filter is_http_get tr2 @ replicate fuel (HttpGet (history_url prompt_id))" .
  moreover from queue_workflow_trace [OF qn] have "tr2 = tr1 @ [submission workflow']" .
  moreover from init_image_trace [OF v [unfolded x] h] have "filter is_http_get tr1 = []"
    by (simp add: filter_other_kind)
  ultimately show ?thesis by (simp add: submission_def)
qed

text \<open>
C1. Whatever the event and whatever the outside answers: an exception raised anywhere in
  the \<^verbatim>\<open>try\<close> block is turned into \<^verbatim>\<open>{'error': str(e)}\<close>, so none leaves the handler;
  a value the handler returns is \<^verbatim>\<open>{'images': [...]}\<close> with a list of strings, or
  \<^verbatim>\<open>{'error': ...}\<close>, or else the decoded body with which the engine answered the
  submission under a status other than 200, which line 113 returns as it is; and the handler
  has returned unless its polling loop is still going on, all the requests the fuel allows
  having been made.
\<close>

theorem handler_result_shape:
  "(handler_try fuel env event [] = (Raise e, tr) \<longrightarrow>
      handler fuel env event = (Some (JObj [(''error'', JStr (str_exn e))]), tr)) \<and>
   (handler fuel env event = (Some v, tr) \<longrightarrow>
      is_success_payload v \<or> is_error_payload v \<or>
      (\<exists>workflow r. submission workflow \<in> set tr \<and>
         env_post env prompt_url (JObj [(''prompt'', workflow)]) = Inr r \<and>
         status_code r \<noteq> 200 \<and> json_body r = Inr v)) \<and>
   (handler fuel env event = (None, tr) \<longrightarrow> length (filter is_http_get tr) = fuel)"
proof (intro conjI impI)
  assume "handler_try fuel env event [] = (Raise e, tr)"
  then show "handler fuel env event = (Some (JObj [(''error'', JStr (str_exn e))]), tr)"
    by (rule handler_of_raise)
next
  assume h: "handler fuel env event = (Some v, tr)"
  obtain out tr' where t: "handler_try fuel env event [] = (out, tr')"
    by (cases "handler_try fuel env event []")
  show "is_success_payload v \<or> is_error_payload v \<or>
      (\<exists>workflow r. submission workflow \<in> set tr \<and>
         env_post env prompt_url (JObj [(''prompt'', workflow)]) = Inr r \<and>
         status_code r \<noteq> 200 \<and> json_body r = Inr v)"
  proof (cases out)
    case (Next u)
    with t handler_try_not_next show ?thesis by blast
  next
    case (Return v')
    with t h have "v' = v" "tr' = tr" by (simp_all add: handler_def)
    with t Return handler_try_return show ?thesis by blast
  next
    case (Raise e')
    with t h show ?thesis by (auto simp: handler_def)
  next
    case Running
    with t h show ?thesis by (simp add: handler_def)
  qed
next
  assume h: "handler fuel env event = (None, tr)"
  then have "handler_try fuel env event [] = (Running, tr)"
    by (auto simp: handler_def split: prod.splits flow.splits)
  then show "length (filter is_http_get tr) = fuel" by (rule handler_try_running)
qed

theorem handler_result_shape_witness:
  "handler 0 no_engine (JObj []) =
     (Some (JObj [(''error'', JStr (str_exn (KeyError (JStr ''input''))))]), []) \<and>
   (is_success_payload (JObj [(''images'', JList [JStr ''PNG''])]) \<or>
    is_error_payload (JObj [(''images'', JList [JStr ''PNG''])]) \<or>
    (\<exists>workflow r.
       submission workflow \<in> set
         [submission plain_workflow, HttpGet (history_url (JStr ''abc'')), Sleep 200,
          HttpGet (history_url (JStr ''abc'')), Sleep 200, HttpGet (history_url (JStr ''abc'')),
          ReadFile ''/runpod-volume/ComfyUI/output/out.png''] \<and>
       env_post slow_engine prompt_url (JObj [(''prompt'', workflow)]) = Inr r \<and>
       status_code r \<noteq> 200 \<and> json_body r = Inr (JObj [(''images'', JList [JStr ''PNG''])]))) \<and>
   length (filter is_http_get
     [submission plain_workflow, HttpGet (history_url (JStr ''abc'')), Sleep 200,
      HttpGet (history_url (JStr ''abc'')), Sleep 200]) = 2"
proof -
  have r: "handler_try 0 no_engine (JObj []) [] = (Raise (KeyError (JStr ''input'')), [])"
    by (simp add: handler_try_def validated_workflow_def prog_defs)
  have h: "handler (Suc (Suc (Suc 0))) slow_engine (event_of [(''workflow'', plain_workflow)]) =
    (Some (JObj [(''images'', JList [JStr ''PNG''])]),
     [submission plain_workflow, HttpGet (history_url (JStr ''abc'')), Sleep 200,
      HttpGet (history_url (JStr ''abc'')), Sleep 200, HttpGet (history_url (JStr ''abc'')),
      ReadFile ''/runpod-volume/ComfyUI/output/out.png''])"
    by (simp add: handler_defs prog_defs world_defs slow_engine_def)
  have n: "handler (Suc (Suc 0)) slow_engine (event_of [(''workflow'', plain_workflow)]) =
    (None,
     [submission plain_workflow, HttpGet (history_url (JStr ''abc'')), Sleep 200,
      HttpGet (history_url (JStr ''abc'')), Sleep 200])"
    by (simp add: handler_defs prog_defs world_defs slow_engine_def)
  from handler_result_shape [THEN conjunct1, rule_format, OF r]
    handler_result_shape [THEN conjunct2, THEN conjunct1, rule_format, OF h]
    handler_result_shape [THEN conjunct2, THEN conjunct2, rule_format, OF n]
  show ?thesis by (simp only: numeral_2_eq_2)
qed

text \<open>
The engine refuses the submission with status 500 and the body
  \<^verbatim>\<open>{'detail': 'bad node'}\<close>: the value returned is that dict, which is neither a
  success payload nor an error payload.
\<close>

theorem handler_result_shape_counterexample:
  "fst (handler (Suc 0) rejecting_engine
          (event_of [(''workflow'', JObj image_nodes), (''init_image'', JStr ''QUJD'')])) =
     Some (JObj [(''detail'', JStr ''bad node'')]) \<and>
   \<not> is_success_payload (JObj [(''detail'', JStr ''bad node'')]) \<and>
   \<not> is_error_payload (JObj [(''detail'', JStr ''bad node'')])"
  by (simp add: handler_defs prog_defs world_defs rejecting_engine_def example_nodes loader_patched)

subsection \<open>The polling loop\<close>

lemma poll_step_waiting:
  "waiting env pid k \<Longrightarrow>
   poll_history (Suc fuel) env pid k tr =
     poll_history fuel env pid (Suc k) (tr @ [HttpGet (history_url pid), Sleep 200])"
  by (auto simp: waiting_def history_url_def send_get_request_def history_ready_def prog_defs
      Let_def split: sum.splits)

lemma poll_step_populated:
  "populated_with env pid k body \<Longrightarrow>
   poll_history (Suc fuel) env pid k tr = (Next body, tr @ [HttpGet (history_url pid)])"
  by (auto simp: populated_with_def history_url_def send_get_request_def history_ready_def
      prog_defs Let_def split: sum.splits)

lemma poll_step_next:
  "poll_history (Suc fuel) env pid k tr = (Next body, tr') \<Longrightarrow>
   populated_with env pid k body \<or>
   (waiting env pid k \<and>
    poll_history fuel env pid (Suc k) (tr @ [HttpGet (history_url pid), Sleep 200]) = (Next body, tr'))"
  by (auto simp: populated_with_def waiting_def history_url_def send_get_request_def
        history_ready_def prog_defs Let_def split: sum.splits if_splits)

declare poll_history.simps [simp del]

lemma poll_waiting_run:
  "(\<forall>j<n. waiting env pid (k + j)) \<Longrightarrow>
   poll_history (n + fuel) env pid k tr = poll_history fuel env pid (k + n) (tr @ rounds pid n)"
proof (induction n arbitrary: k tr)
  case 0
  then show ?case by (simp add: rounds_def)
next
  case (Suc n)
  from Suc.prems have w: "waiting env pid k" by (metis add.right_neutral zero_less_Suc)
  from Suc.prems have "\<forall>j<n. waiting env pid (Suc k + j)" by (metis Suc_less_eq add_Suc_shift)
  from Suc.IH [OF this] show ?case
    using poll_step_waiting [OF w] by (simp add: rounds_def)
qed

lemma poll_next_only:
  "poll_history fuel env pid k tr = (Next body, tr') \<Longrightarrow>
   \<exists>n<fuel. (\<forall>j<n. waiting env pid (k + j)) \<and> populated_with env pid (k + n) body"
proof (induction fuel arbitrary: k tr)
  case 0
  then show ?case by (simp add: poll_history.simps out_of_fuel_def)
next
  case (Suc fuel)
  from poll_step_next [OF Suc.prems] show ?case
  proof
    assume "populated_with env pid k body"
    then show ?thesis by (intro exI [of _ 0]) simp
  next
    assume a: "waiting env pid k \<and>
      poll_history fuel env pid (Suc k) (tr @ [HttpGet (history_url pid), Sleep 200]) = (Next body, tr')"
    from Suc.IH [OF conjunct2 [OF a]] obtain n where n: "n < fuel"
      "\<forall>j<n. waiting env pid (Suc k + j)" "populated_with env pid (Suc k + n) body" by blast
    have "\<forall>j<Suc n. waiting env pid (k + j)"
    proof (intro allI impI)
      fix j assume "j < Suc n"
      then show "waiting env pid (k + j)" using a n(2) by (cases j) auto
    qed
    with n show ?thesis by (intro exI [of _ "Suc n"]) simp
  qed
qed

lemma poll_all_waiting:
  "(\<forall>j. waiting env pid j) \<Longrightarrow> fst (poll_history fuel env pid k tr) = Running"
proof (induction fuel arbitrary: k tr)
  case 0
  then show ?case by (simp add: poll_history.simps out_of_fuel_def)
next
  case (Suc fuel)
  then show ?case using poll_step_waiting [of env pid k fuel tr] by simp
qed

text \<open>
C6. The polling loop of lines 122 to 127, started on any trace. It is left by its
  \<^verbatim>\<open>break\<close>, with a body, exactly when some answer has status 200 and decodes to that
  non-empty body while every answer before it decoded and had another status or an empty
  body. When the first \<open>n\<close> answers are of the latter kind and the next one is populated,
  the loop makes exactly \<open>n + 1\<close> history requests with a pause of 200 milliseconds after
  each of the first \<open>n\<close>, and nothing else. When every answer is of the latter kind, the
  loop is still running after any number of requests. (A request or a decoding that raises
  ends the handler through its \<^verbatim>\<open>except\<close> clause; see C1.)
\<close>

theorem poll_history_ends_when_populated:
  "((\<exists>fuel tr'. poll_history fuel env pid 0 tr = (Next body, tr')) \<longleftrightarrow>
      (\<exists>n. (\<forall>j<n. waiting env pid j) \<and> populated_with env pid n body)) \<and>
   ((\<forall>j<n. waiting env pid j) \<and> populated_with env pid n body \<longrightarrow>
      (\<forall>fuel>n. poll_history fuel env pid 0 tr =
         (Next body, tr @ rounds pid n @ [HttpGet (history_url pid)]))) \<and>
   ((\<forall>j. waiting env pid j) \<longrightarrow> (\<forall>fuel. fst (poll_history fuel env pid 0 tr) = Running))"
proof (intro conjI impI allI)
  fix fuel
  assume a: "(\<forall>j<n. waiting env pid j) \<and> populated_with env pid n body" and f: "n < fuel"
  then obtain m where m: "fuel = n + Suc m" by (metis less_imp_Suc_add add_Suc_right)
  from a have "poll_history (n + Suc m) env pid 0 tr =
      poll_history (Suc m) env pid (0 + n) (tr @ rounds pid n)"
    by (intro poll_waiting_run) simp
  with a m poll_step_populated [of env pid n body m "tr @ rounds pid n"]
  show "poll_history fuel env pid 0 tr =
         (Next body, tr @ rounds pid n @ [HttpGet (history_url pid)])"
    by simp
next
  fix fuel
  assume "\<forall>j. waiting env pid j"
  then show "fst (poll_history fuel env pid 0 tr) = Running" by (rule poll_all_waiting)
next
  show "(\<exists>fuel tr'. poll_history fuel env pid 0 tr = (Next body, tr')) \<longleftrightarrow>
      (\<exists>n. (\<forall>j<n. waiting env pid j) \<and> populated_with env pid n body)"
  proof
    assume "\<exists>fuel tr'. poll_history fuel env pid 0 tr = (Next body, tr')"
    then obtain fuel tr' where "poll_history fuel env pid 0 tr = (Next body, tr')" by blast
    from poll_next_only [OF this]
    show "\<exists>n. (\<forall>j<n. waiting env pid j) \<and> populated_with env pid n body"
      by auto
  next
    assume "\<exists>n. (\<forall>j<n. waiting env pid j) \<and> populated_with env pid n body"
    then obtain m where m: "\<forall>j<m. waiting env pid j" "populated_with env pid m body" by blast
    then have "poll_history (m + Suc 0) env pid 0 tr =
        poll_history (Suc 0) env pid (0 + m) (tr @ rounds pid m)"
      by (intro poll_waiting_run) simp
    with m show "\<exists>fuel tr'. poll_history fuel env pid 0 tr = (Next body, tr')"
      by (metis poll_step_populated add_0)
  qed
qed

theorem poll_history_ends_when_populated_witness:
  "poll_history (Suc (Suc (Suc 0))) slow_engine (JStr ''abc'') 0 [] =
     (Next finished,
      [HttpGet (history_url (JStr ''abc'')), Sleep 200,
       HttpGet (history_url (JStr ''abc'')), Sleep 200, HttpGet (history_url (JStr ''abc''))]) \<and>
   fst (poll_history 7 stuck_engine (JStr ''abc'') 0 []) = Running"
proof -
  have w: "\<forall>j<Suc (Suc 0). waiting slow_engine (JStr ''abc'') j"
    by (simp add: less_Suc_eq waiting_def slow_engine_def world_parts answer_def)
  have p: "populated_with slow_engine (JStr ''abc'') (Suc (Suc 0)) finished"
    by (simp add: populated_with_def slow_engine_def world_parts answer_def finished_def history_of_def)
  have s: "\<forall>j. waiting stuck_engine (JStr ''abc'') j"
    by (simp add: waiting_def stuck_engine_def world_parts answer_def)
  from poll_history_ends_when_populated [of slow_engine "JStr ''abc''" "[]" finished "Suc (Suc 0)",
      THEN conjunct2, THEN conjunct1, rule_format, OF conjI [OF w p], of "Suc (Suc (Suc 0))"]
    poll_history_ends_when_populated [of stuck_engine "JStr ''abc''" "[]" finished 0,
      THEN conjunct2, THEN conjunct2, rule_format, OF s [rule_format], of 7]
  show ?thesis by (simp add: rounds_def)
qed

subsection \<open>The file names of the outputs\<close>

lemma get_filenames_loop_first:
  "list_all is_dict (map snd outs) \<Longrightarrow>
   get_filenames_loop outs =
     Inr (case find (\<lambda>v. images_list v \<noteq> None) (map snd outs) of
            None \<Rightarrow> []
          | Some v \<Rightarrow> (case images_list v of None \<Rightarrow> [] | Some imgs \<Rightarrow> imgs))"
proof (induction outs)
  case Nil
  then show ?case by simp
next
  case (Cons entry outs)
  obtain key val where entry: "entry = (key, val)" by (cases entry)
  from Cons.prems entry obtain kvs where val: "val = JObj kvs" by (cases val) auto
  from Cons have IH: "get_filenames_loop outs =
     Inr (case find (\<lambda>v. images_list v \<noteq> None) (map snd outs) of
            None \<Rightarrow> []
          | Some v \<Rightarrow> (case images_list v of None \<Rightarrow> [] | Some imgs \<Rightarrow> imgs))" by simp
  show ?case
  proof (cases "map_of kvs ''images''")
    case None
    then have "''images'' \<notin> fst ` set kvs" by (simp add: map_of_eq_None_iff)
    with None show ?thesis by (simp add: entry val IH images_list_def)
  next
    case (Some img)
    then have "''images'' \<in> fst ` set kvs" by (metis map_of_eq_None_iff option.distinct(1))
    with Some show ?thesis by (cases img) (simp_all add: entry val IH images_list_def)
  qed
qed

text \<open>
C3. For an outputs mapping whose node outputs are dicts, \<^verbatim>\<open>get_filenames\<close> returns the
  \<^verbatim>\<open>images\<close> value of the first entry, in stored order, whose \<^verbatim>\<open>images\<close> is a list,
  be that list empty or not, and the empty list when no entry has one.
\<close>

theorem get_filenames_first_list:
  assumes "list_all is_dict (map snd outs)"
  shows "get_filenames (JObj outs) =
     Inr (case find (\<lambda>v. images_list v \<noteq> None) (map snd outs) of
            None \<Rightarrow> []
          | Some v \<Rightarrow> (case images_list v of None \<Rightarrow> [] | Some imgs \<Rightarrow> imgs))"
  using get_filenames_loop_first [OF assms] by (simp add: get_filenames_def)

theorem get_filenames_first_list_witness:
  "get_filenames (JObj empty_then_image) = Inr []"
  using get_filenames_first_list [of empty_then_image]
  by (simp add: empty_then_image_def images_list_def)

text \<open>
An entry with an empty \<^verbatim>\<open>images\<close> list comes before one with an image: the function
  returns the empty list of the first, where the first non-empty list is the one of the
  second.
\<close>

theorem get_filenames_nonempty_counterexample:
  "get_filenames (JObj empty_then_image) = Inr [] \<and>
   first_nonempty_images empty_then_image = [JObj [(''filename'', JStr ''out.png'')]]"
  by (simp add: get_filenames_def empty_then_image_def images_list_def)

end
